theory Spec2Isabelle
  imports Complex_Main "HOL-Library.Word" "HOL-Library.Log_Nat"
begin

section \<open>Values of the Python layer\<close>

text \<open>
  The development embeds \<^verbatim>\<open>src/python/src/moocore/_moocore.py\<close>, the Python layer of
  the library. Every function of that file marshals NumPy arrays and calls a routine of the
  native library (\<^verbatim>\<open>lib.fpli_hv\<close>, \<^verbatim>\<open>lib.eaf_compute_matrix\<close>, ...), which is not part of the
  sources: each embedded function takes the native routines it calls as parameters.
\<close>

datatype error = ValueError | NotImplementedError | IndexError | ZeroDivisionError

text \<open>
  A \<^verbatim>\<open>double\<close> computed by the Python layer from native results: a finite value, an
  infinity or NaN. Finite arithmetic on these values is exact (rounding and overflow of
  the sums and means computed on the Python side are not modelled); the special values
  follow IEEE 754. This decides the comparisons \<^verbatim>\<open>tmp > avg_hyp\<close> and \<^verbatim>\<open>diff != 0\<close> of
  \<^verbatim>\<open>vorobT\<close> as the doubles do: two finite doubles have a difference of zero exactly when
  they are equal.
\<close>

datatype double = Fin real | PInf | NInf | NaN

fun dneg :: "double \<Rightarrow> double" where
  "dneg (Fin x) = Fin (- x)"
| "dneg PInf = NInf"
| "dneg NInf = PInf"
| "dneg NaN = NaN"

fun dadd :: "double \<Rightarrow> double \<Rightarrow> double" where
  "dadd NaN _ = NaN"
| "dadd _ NaN = NaN"
| "dadd (Fin x) (Fin y) = Fin (x + y)"
| "dadd PInf NInf = NaN"
| "dadd NInf PInf = NaN"
| "dadd PInf _ = PInf"
| "dadd _ PInf = PInf"
| "dadd NInf _ = NInf"
| "dadd _ NInf = NInf"

definition dsub :: "double \<Rightarrow> double \<Rightarrow> double" where
  "dsub x y = dadd x (dneg y)"

text \<open>\<^verbatim>\<open>x * 2.0\<close>\<close>

fun dtwice :: "double \<Rightarrow> double" where
  "dtwice (Fin x) = Fin (x * 2)"
| "dtwice d = d"

text \<open>\<^verbatim>\<open>x > y\<close>: false as soon as one side is NaN.\<close>

fun dgt :: "double \<Rightarrow> double \<Rightarrow> bool" where
  "dgt NaN _ = False"
| "dgt _ NaN = False"
| "dgt (Fin x) (Fin y) = (x > y)"
| "dgt PInf PInf = False"
| "dgt PInf _ = True"
| "dgt NInf _ = False"
| "dgt (Fin x) PInf = False"
| "dgt (Fin x) NInf = True"

text \<open>\<^verbatim>\<open>x != 0\<close>: true for NaN and for the infinities.\<close>

fun dne0 :: "double \<Rightarrow> bool" where
  "dne0 (Fin x) = (x \<noteq> 0)"
| "dne0 _ = True"

text \<open>
  \<^verbatim>\<open>np.mean\<close> of a sequence of doubles: the sum divided by the number of items; the mean
  of no item at all is NaN (0/0).
\<close>

fun ddiv_count :: "double \<Rightarrow> nat \<Rightarrow> double" where
  "ddiv_count (Fin x) n = (if n = 0 then NaN else Fin (x / real n))"
| "ddiv_count d n = (if n = 0 then NaN else d)"

definition np_mean :: "double list \<Rightarrow> double" where
  "np_mean xs = ddiv_count (foldr dadd xs (Fin 0)) (length xs)"

text \<open>
  A two-dimensional array of finite doubles: its number of columns (\<^verbatim>\<open>shape[1]\<close>, which an
  array with no row has too) and its rows. In a well-formed array every row has
  \<open>ncols\<close> entries.
\<close>

record ndarray =
  ncols :: nat
  rows :: "real list list"

definition wf_ndarray :: "ndarray \<Rightarrow> bool" where
  "wf_ndarray A = (\<forall>r \<in> set (rows A). length r = ncols A)"

text \<open>\<^verbatim>\<open>data[:, -1]\<close>, \<^verbatim>\<open>data[:, :-1]\<close>, \<^verbatim>\<open>data[:, :n]\<close> and \<^verbatim>\<open>data[sets == k, :]\<close>.\<close>

definition last_col :: "ndarray \<Rightarrow> real list" where
  "last_col A = map last (rows A)"

definition drop_last_col :: "ndarray \<Rightarrow> ndarray" where
  "drop_last_col A = \<lparr>ncols = ncols A - 1, rows = map butlast (rows A)\<rparr>"

definition take_cols :: "nat \<Rightarrow> ndarray \<Rightarrow> ndarray" where
  "take_cols n A = \<lparr>ncols = min n (ncols A), rows = map (take n) (rows A)\<rparr>"

definition rows_of_set :: "real \<Rightarrow> ndarray \<Rightarrow> ndarray" where
  "rows_of_set k A = \<lparr>ncols = ncols A, rows = filter (\<lambda>r. last r = k) (rows A)\<rparr>"

text \<open>
  \<^verbatim>\<open>np.unique(x)\<close>: the distinct values in increasing order; with
  \<^verbatim>\<open>return_index=True\<close> also the index of the first occurrence of each of them in \<open>x\<close>, and
  with \<^verbatim>\<open>return_counts=True\<close> the number of occurrences of each.
\<close>

definition np_unique :: "real list \<Rightarrow> real list" where
  "np_unique xs = sort (remdups xs)"

definition first_index :: "real list \<Rightarrow> real \<Rightarrow> nat" where
  "first_index xs k = length (takeWhile (\<lambda>x. x \<noteq> k) xs)"

definition np_unique_index :: "real list \<Rightarrow> nat list" where
  "np_unique_index xs = map (first_index xs) (np_unique xs)"

definition np_unique_counts :: "real list \<Rightarrow> nat list" where
  "np_unique_counts xs = map (count_list xs) (np_unique xs)"

text \<open>\<^verbatim>\<open>np.cumsum\<close>\<close>

fun cumsum_from :: "nat \<Rightarrow> nat list \<Rightarrow> nat list" where
  "cumsum_from acc [] = []"
| "cumsum_from acc (x # xs) = (acc + x) # cumsum_from (acc + x) xs"

definition np_cumsum :: "nat list \<Rightarrow> nat list" where
  "np_cumsum xs = cumsum_from 0 xs"

text \<open>
  \<^verbatim>\<open>np.vsplit(A, idx)\<close> with a list of indices: the pieces \<^verbatim>\<open>A[st:en]\<close> for the consecutive
  pairs of \<^verbatim>\<open>[0] + idx + [len(A)]\<close>; a slice whose start is not below its end is empty.
\<close>

definition np_vsplit :: "ndarray \<Rightarrow> nat list \<Rightarrow> ndarray list" where
  "np_vsplit A idx =
     map (\<lambda>(st, en). \<lparr>ncols = ncols A, rows = take (en - st) (drop st (rows A))\<rparr>)
         (zip (0 # idx) (idx @ [length (rows A)]))"

text \<open>
  Modelled from the spec: \<^verbatim>\<open>atleast_1d_of_length_n\<close> of \<^verbatim>\<open>_utils.py\<close>, which is not in the
  sources. The docstrings of its callers describe it: the argument is "either a single
  value that applies to all objectives or a list, with one value per objective"; any
  other length is a shape error. A single Python value is the one-element list.
\<close>

definition atleast_1d_of_length_n :: "'a list \<Rightarrow> nat \<Rightarrow> error + 'a list" where
  "atleast_1d_of_length_n x n =
     (if length x = 1 then Inr (replicate n (hd x))
      else if length x = n then Inr x
      else Inl ValueError)"

definition parse_maximise :: "bool list \<Rightarrow> nat \<Rightarrow> error + bool list" where
  "parse_maximise maximise nobj = atleast_1d_of_length_n maximise nobj"

section \<open>Hypervolume\<close>

text \<open>
  The native routines receive the buffer of the array with its dimensions; the buffer is
  passed here as the list of rows.
\<close>

type_synonym fpli_hv_t = "real list list \<Rightarrow> nat \<Rightarrow> nat \<Rightarrow> real list \<Rightarrow> double"

definition hypervolume :: "fpli_hv_t \<Rightarrow> ndarray \<Rightarrow> real list \<Rightarrow> error + double" where
  "hypervolume fpli_hv data ref =
     (let nobj = ncols data in
      case atleast_1d_of_length_n ref nobj of
        Inl e \<Rightarrow> Inl e
      | Inr ref' \<Rightarrow>
          if nobj \<noteq> length ref' then Inl ValueError
          else Inr (fpli_hv (rows data) nobj (length (rows data)) ref'))"

section \<open>Empirical attainment function\<close>

type_synonym eaf_compute_matrix_t =
  "real list list \<Rightarrow> nat \<Rightarrow> nat list \<Rightarrow> real list \<Rightarrow> real list list"

text \<open>
  \<^verbatim>\<open>eaf(data, percentiles)\<close>. The native routine returns the attainment records, one row of
  \<open>ncols\<close> entries each; \<^verbatim>\<open>reshape((eaf_npoints, -1))\<close> of no record at all is a
  \<^verbatim>\<open>ValueError\<close>. With no row in \<open>data\<close> and no percentile, \<^verbatim>\<open>100.0 / nsets\<close> divides by
  zero.
\<close>

definition eaf_percentiles :: "nat \<Rightarrow> real list \<Rightarrow> error + real list" where
  "eaf_percentiles nsets percentiles =
     (if length percentiles = 0 then
        (if nsets = 0 then Inl ZeroDivisionError
         else Inr (map (\<lambda>k. real k * (100 / real nsets)) [1 ..< nsets + 1]))
      else Inr (np_unique percentiles))"

definition eaf :: "eaf_compute_matrix_t \<Rightarrow> ndarray \<Rightarrow> real list \<Rightarrow> error + ndarray" where
  "eaf eaf_compute_matrix data percentiles =
     (if ncols data < 3 then Inl ValueError
      else if ncols data > 4 then Inl NotImplementedError
      else
        let cumsizes = np_cumsum (np_unique_counts (last_col data));
            nsets = length cumsizes
        in (case eaf_percentiles nsets percentiles of
              Inl e \<Rightarrow> Inl e
            | Inr pct \<Rightarrow>
                let objs = drop_last_col data;
                    eaf_data = eaf_compute_matrix (rows objs) (ncols objs) cumsizes pct
                in if eaf_data = [] then Inl ValueError
                   else Inr \<lparr>ncols = ncols data, rows = eaf_data\<rparr>))"

section \<open>Vorob'ev threshold\<close>

record vorob_result =
  threshold :: real
  VE :: ndarray
  avg_hyp :: double

text \<open>A list comprehension whose items may raise: the first exception ends it.\<close>

fun collect :: "(error + 'a) list \<Rightarrow> error + 'a list" where
  "collect [] = Inr []"
| "collect (Inl e # _) = Inl e"
| "collect (Inr x # xs) = (case collect xs of Inl e \<Rightarrow> Inl e | Inr ys \<Rightarrow> Inr (x # ys))"

text \<open>
  Lines 716 to 718 of \<^verbatim>\<open>vorobT\<close>:
  \<^verbatim>\<open>avg_hyp = np.mean([hypervolume(data[sets == k, :-1], ref=reference) for k in sets])\<close>
  where \<^verbatim>\<open>sets = data[:, -1]\<close>. The comprehension runs over \<^verbatim>\<open>sets\<close>, the set column
  itself, one item per row of \<open>data\<close>.
\<close>

definition vorobT_avg_hyp :: "fpli_hv_t \<Rightarrow> ndarray \<Rightarrow> real list \<Rightarrow> error + double" where
  "vorobT_avg_hyp fpli_hv data reference =
     (let sets = last_col data in
      case collect (map (\<lambda>k. hypervolume fpli_hv (drop_last_col (rows_of_set k data)) reference)
                        sets) of
        Inl e \<Rightarrow> Inl e
      | Inr hyps \<Rightarrow> Inr (np_mean hyps))"

text \<open>
  The bounds \<open>a\<close>, \<open>b\<close> and the midpoint \<open>c\<close> of the bisection are doubles between 0 and 100,
  and the loop ends when they stop moving, so their arithmetic is modelled to the bit. A
  non-negative finite double is \<open>k\<close> times \<open>2\<^sup>-\<^sup>1\<^sup>0\<^sup>7\<^sup>4\<close>, the smallest subnormal, for a natural
  number \<open>k\<close> of at most 53 significant bits; it is represented by \<open>k\<close>. An operation computes
  the exact result and rounds it to the nearest double, ties to even: \<open>round_to s\<close> rounds
  to a multiple of \<open>2\<^sup>s\<close>, and a number of \<open>n\<close> bits is rounded to a multiple of \<open>2\<^sup>n\<^sup>-\<^sup>5\<^sup>3\<close>.
  Sums of numbers up to 100 do not overflow.
\<close>

definition round_to :: "nat \<Rightarrow> nat \<Rightarrow> nat" where
  "round_to s k =
     (let q = k div 2 ^ s; r = k mod 2 ^ s
      in if 2 * r < 2 ^ s \<or> (2 * r = 2 ^ s \<and> even q) then q * 2 ^ s else (q + 1) * 2 ^ s)"

definition round53 :: "nat \<Rightarrow> nat" where
  "round53 k = round_to (floorlog 2 k - 53) k"

text \<open>\<^verbatim>\<open>a + b\<close>, \<^verbatim>\<open>x / 2.0\<close> and \<^verbatim>\<open>(a + b) / 2.0\<close> on doubles.\<close>

definition dbl_add :: "nat \<Rightarrow> nat \<Rightarrow> nat" where
  "dbl_add a b = round53 (a + b)"

definition dbl_half :: "nat \<Rightarrow> nat" where
  "dbl_half x = round_to 1 x div 2"

definition dbl_mid :: "nat \<Rightarrow> nat \<Rightarrow> nat" where
  "dbl_mid a b = dbl_half (dbl_add a b)"

text \<open>The value of a double, the doubles among the naturals, and the double 100.\<close>

definition dbl_value :: "nat \<Rightarrow> real" where
  "dbl_value k = real k / 2 ^ 1074"

definition is_dbl :: "nat \<Rightarrow> bool" where
  "is_dbl k = (2 ^ (floorlog 2 k - 53) dvd k)"

definition dbl_100 :: nat where
  "dbl_100 = 100 * 2 ^ 1074"

text \<open>The double whose value is \<open>m / 2\<close>, for a natural number \<open>m\<close> below \<open>2\<^sup>5\<^sup>3\<close>.\<close>

definition dbl_of_halves :: "nat \<Rightarrow> nat" where
  "dbl_of_halves m = m * 2 ^ 1073"

text \<open>A hypervolume that is neither an infinity nor NaN.\<close>

fun dfinite :: "double \<Rightarrow> bool" where
  "dfinite (Fin x) = True"
| "dfinite _ = False"

text \<open>
  One pass through the body of the \<^verbatim>\<open>while diff != 0\<close> loop, from the bounds \<open>a\<close>, \<open>b\<close> and
  the previous hypervolume: the midpoint \<open>c\<close>, the EAF boundary at \<open>c\<close> without its
  percentile column, the new bounds, \<open>diff\<close> and the new \<open>prev_hyp\<close>.
\<close>

definition vorobT_body ::
  "fpli_hv_t \<Rightarrow> eaf_compute_matrix_t \<Rightarrow> ndarray \<Rightarrow> real list \<Rightarrow> nat \<Rightarrow> double \<Rightarrow>
   nat \<Rightarrow> nat \<Rightarrow> double \<Rightarrow> error + (nat \<times> ndarray \<times> nat \<times> nat \<times> double \<times> double)" where
  "vorobT_body fpli_hv eaf_compute_matrix data reference nobjs avg a b prev_hyp =
     (let c = dbl_mid a b in
      case eaf eaf_compute_matrix data [dbl_value c] of
        Inl e \<Rightarrow> Inl e
      | Inr res \<Rightarrow>
          let eaf_res = take_cols nobjs res in
          (case hypervolume fpli_hv eaf_res reference of
             Inl e \<Rightarrow> Inl e
           | Inr tmp \<Rightarrow>
               let a' = (if dgt tmp avg then c else a);
                   b' = (if dgt tmp avg then b else c);
                   diff = dsub prev_hyp tmp
               in Inr (c, eaf_res, a', b', diff, tmp)))"

text \<open>
  The loop itself. It has no iteration counter: it is left only when \<open>diff\<close> compares equal
  to zero or when the body raises. \<open>None\<close> is the loop that never ends.
\<close>

partial_function (option) vorobT_loop ::
  "fpli_hv_t \<Rightarrow> eaf_compute_matrix_t \<Rightarrow> ndarray \<Rightarrow> real list \<Rightarrow> nat \<Rightarrow> double \<Rightarrow>
   nat \<Rightarrow> nat \<Rightarrow> double \<Rightarrow> (error + vorob_result) option" where
  "vorobT_loop fpli_hv eaf_compute_matrix data reference nobjs avg a b prev_hyp =
     (case vorobT_body fpli_hv eaf_compute_matrix data reference nobjs avg a b prev_hyp of
        Inl e \<Rightarrow> Some (Inl e)
      | Inr (c, eaf_res, a', b', diff, tmp) \<Rightarrow>
          if dne0 diff
          then vorobT_loop fpli_hv eaf_compute_matrix data reference nobjs avg a' b' tmp
          else Some (Inr \<lparr>threshold = dbl_value c, VE = eaf_res, avg_hyp = avg\<rparr>))"

definition vorobT ::
  "fpli_hv_t \<Rightarrow> eaf_compute_matrix_t \<Rightarrow> ndarray \<Rightarrow> real list \<Rightarrow> (error + vorob_result) option" where
  "vorobT fpli_hv eaf_compute_matrix data reference =
     (if ncols data < 3 then Some (Inl ValueError)
      else (case vorobT_avg_hyp fpli_hv data reference of
              Inl e \<Rightarrow> Some (Inl e)
            | Inr avg \<Rightarrow>
                vorobT_loop fpli_hv eaf_compute_matrix data reference (ncols data - 1) avg
                  0 dbl_100 PInf))"

text \<open>
  The loop seen as an iteration on its state \<open>(a, b, prev_hyp)\<close>: \<open>vorobT_step\<close> is the state
  after one pass when the loop goes on, and \<open>None\<close> when that pass leaves the loop (by
  \<open>diff == 0\<close> or by an exception); \<open>vorobT_iter s n\<close> is the state after \<open>n\<close> passes from
  \<open>s\<close>, if the loop is still running then.
\<close>

definition vorobT_step ::
  "fpli_hv_t \<Rightarrow> eaf_compute_matrix_t \<Rightarrow> ndarray \<Rightarrow> real list \<Rightarrow> nat \<Rightarrow> double \<Rightarrow>
   nat \<times> nat \<times> double \<Rightarrow> (nat \<times> nat \<times> double) option" where
  "vorobT_step fpli_hv eaf_compute_matrix data reference nobjs avg s =
     (case s of (a, b, prev_hyp) \<Rightarrow>
        case vorobT_body fpli_hv eaf_compute_matrix data reference nobjs avg a b prev_hyp of
          Inl e \<Rightarrow> None
        | Inr (c, eaf_res, a', b', diff, tmp) \<Rightarrow> if dne0 diff then Some (a', b', tmp) else None)"

fun vorobT_iter ::
  "fpli_hv_t \<Rightarrow> eaf_compute_matrix_t \<Rightarrow> ndarray \<Rightarrow> real list \<Rightarrow> nat \<Rightarrow> double \<Rightarrow>
   nat \<times> nat \<times> double \<Rightarrow> nat \<Rightarrow> (nat \<times> nat \<times> double) option" where
  "vorobT_iter fpli_hv ecm data reference nobjs avg s 0 = Some s"
| "vorobT_iter fpli_hv ecm data reference nobjs avg s (Suc n) =
     (case vorobT_step fpli_hv ecm data reference nobjs avg s of
        None \<Rightarrow> None
      | Some s' \<Rightarrow> vorobT_iter fpli_hv ecm data reference nobjs avg s' n)"

section \<open>Vorob'ev deviation\<close>

text \<open>\<^verbatim>\<open>np.row_stack((g, VE))\<close>: the arrays must have the same number of columns.\<close>

definition row_stack :: "ndarray \<Rightarrow> ndarray \<Rightarrow> error + ndarray" where
  "row_stack g ve =
     (if ncols g \<noteq> ncols ve then Inl ValueError
      else Inr \<lparr>ncols = ncols g, rows = rows g @ rows ve\<rparr>)"

text \<open>
  The part of \<^verbatim>\<open>vorobDev\<close> after \<open>VE\<close> is known (lines 770 to 793). \<^verbatim>\<open>uniq_index[1:]\<close> is
  the tail of the first-occurrence indices, and \<^verbatim>\<open>np.fromiter(..., count=len(x_split))\<close>
  collects one hypervolume per piece of \<^verbatim>\<open>x_split\<close>.
\<close>

text \<open>\<^verbatim>\<open>hypervolume(np.row_stack((g, VE)), ref=reference)\<close>\<close>

definition hypervolume_stacked ::
  "fpli_hv_t \<Rightarrow> ndarray \<Rightarrow> ndarray \<Rightarrow> real list \<Rightarrow> error + double" where
  "hypervolume_stacked fpli_hv g ve reference =
     (case row_stack g ve of
        Inl e \<Rightarrow> Inl e
      | Inr gv \<Rightarrow> hypervolume fpli_hv gv reference)"

definition vorobDev_VE :: "fpli_hv_t \<Rightarrow> ndarray \<Rightarrow> real list \<Rightarrow> ndarray \<Rightarrow> error + double" where
  "vorobDev_VE fpli_hv x reference ve =
     (if ncols x < 3 then Inl ValueError
      else case hypervolume fpli_hv ve reference of
        Inl e \<Rightarrow> Inl e
      | Inr H2 \<Rightarrow>
          let uniq_index = np_unique_index (last_col x);
              x_split = np_vsplit (drop_last_col x) (tl uniq_index)
          in (case collect (map (\<lambda>g. hypervolume fpli_hv g reference) x_split) of
                Inl e \<Rightarrow> Inl e
              | Inr h1s \<Rightarrow>
                  let H1 = np_mean h1s in
                  (case collect (map (\<lambda>g. hypervolume_stacked fpli_hv g ve reference) x_split) of
                     Inl e \<Rightarrow> Inl e
                   | Inr vds \<Rightarrow>
                       let VD = dtwice (np_mean vds) in
                       Inr (dsub (dsub VD H1) H2))))"

definition vorobDev ::
  "fpli_hv_t \<Rightarrow> eaf_compute_matrix_t \<Rightarrow> ndarray \<Rightarrow> real list \<Rightarrow> ndarray option \<Rightarrow>
   (error + double) option" where
  "vorobDev fpli_hv eaf_compute_matrix x reference VE_arg =
     (case VE_arg of
        Some ve \<Rightarrow> Some (vorobDev_VE fpli_hv x reference ve)
      | None \<Rightarrow>
          (case vorobT fpli_hv eaf_compute_matrix x reference of
             None \<Rightarrow> None
           | Some (Inl e) \<Rightarrow> Some (Inl e)
           | Some (Inr res) \<Rightarrow> Some (vorobDev_VE fpli_hv x reference (VE res))))"

section \<open>Distance indicators\<close>

definition unary_refset_common ::
  "ndarray \<Rightarrow> ndarray \<Rightarrow> bool list \<Rightarrow>
   error + (real list list \<times> nat \<times> nat \<times> real list list \<times> nat \<times> bool list)" where
  "unary_refset_common data ref maximise =
     (let nobj = ncols data in
      if nobj \<noteq> ncols ref then Inl ValueError
      else (case parse_maximise maximise nobj of
              Inl e \<Rightarrow> Inl e
            | Inr maximise_p \<Rightarrow>
                Inr (rows data, nobj, length (rows data), rows ref, length (rows ref), maximise_p)))"

text \<open>
  A native routine is not bound to return: on a domain error it reports the error and ends
  the call there (\<open>Fatal\<close>), and the caller gets no value. Of the domain errors of section 7
  of the specification, the Python layer checks the order \<open>p\<close> of the Hausdorff distance and
  the dimension of the EAF itself; the sign of the coordinates of the multiplicative
  epsilon is left to \<^verbatim>\<open>lib.epsilon_mult\<close>.
\<close>

datatype 'a native_result = Returned 'a | Fatal

type_synonym epsilon_t =
  "real list list \<Rightarrow> nat \<Rightarrow> nat \<Rightarrow> real list list \<Rightarrow> nat \<Rightarrow> bool list \<Rightarrow> double native_result"

definition epsilon_mult ::
  "epsilon_t \<Rightarrow> ndarray \<Rightarrow> ndarray \<Rightarrow> bool list \<Rightarrow> error + double native_result" where
  "epsilon_mult lib_epsilon_mult data ref maximise =
     (case unary_refset_common data ref maximise of
        Inl e \<Rightarrow> Inl e
      | Inr (data_p, nobj, npoints, ref_p, ref_size, maximise_p) \<Rightarrow>
          Inr (lib_epsilon_mult data_p nobj npoints ref_p ref_size maximise_p))"

text \<open>
  \<^verbatim>\<open>ffi.cast("unsigned int", p)\<close>: the C conversion of a number to a 32-bit unsigned
  integer, that is, truncation towards zero and then reduction modulo \<open>2 ^ 32\<close>.
\<close>

definition cast_unsigned_int :: "real \<Rightarrow> 32 word" where
  "cast_unsigned_int p = word_of_int (if 0 \<le> p then \<lfloor>p\<rfloor> else \<lceil>p\<rceil>)"

type_synonym avg_Hausdorff_dist_t =
  "real list list \<Rightarrow> nat \<Rightarrow> nat \<Rightarrow> real list list \<Rightarrow> nat \<Rightarrow> bool list \<Rightarrow> 32 word \<Rightarrow> double"

definition avg_hausdorff_dist ::
  "avg_Hausdorff_dist_t \<Rightarrow> ndarray \<Rightarrow> ndarray \<Rightarrow> bool list \<Rightarrow> real \<Rightarrow> error + double" where
  "avg_hausdorff_dist lib_avg_Hausdorff_dist data ref maximise p =
     (if p \<le> 0 then Inl ValueError
      else case unary_refset_common data ref maximise of
        Inl e \<Rightarrow> Inl e
      | Inr (data_p, nobj, npoints, ref_p, ref_size, maximise_p) \<Rightarrow>
          let p' = cast_unsigned_int p in
          Inr (lib_avg_Hausdorff_dist data_p nobj npoints ref_p ref_size maximise_p p'))"

section \<open>Dominance filter\<close>

text \<open>
  \<^verbatim>\<open>lib.is_nondominated\<close> returns a pointer to an array of booleans, a function from
  offsets to values; the Python layer reads its first \<^verbatim>\<open>data.shape[0]\<close> entries.
\<close>

type_synonym is_nondominated_t =
  "real list list \<Rightarrow> nat \<Rightarrow> nat \<Rightarrow> bool list \<Rightarrow> bool \<Rightarrow> nat \<Rightarrow> bool"

definition is_nondominated ::
  "is_nondominated_t \<Rightarrow> ndarray \<Rightarrow> bool list \<Rightarrow> bool \<Rightarrow> error + bool list" where
  "is_nondominated lib_is_nondominated data maximise keep_weakly =
     (let nobj = ncols data in
      case parse_maximise maximise nobj of
        Inl e \<Rightarrow> Inl e
      | Inr maximise_p \<Rightarrow>
          let nondom = lib_is_nondominated (rows data) nobj (length (rows data))
                         maximise_p keep_weakly
          in Inr (map nondom [0 ..< length (rows data)]))"

text \<open>\<^verbatim>\<open>data[mask, :]\<close> with a boolean mask, which has one entry per row.\<close>

definition select_rows :: "ndarray \<Rightarrow> bool list \<Rightarrow> ndarray" where
  "select_rows data keep = \<lparr>ncols = ncols data, rows = map fst (filter snd (zip (rows data) keep))\<rparr>"

definition filter_dominated ::
  "is_nondominated_t \<Rightarrow> ndarray \<Rightarrow> bool list \<Rightarrow> bool \<Rightarrow> error + ndarray" where
  "filter_dominated lib_is_nondominated data maximise keep_weakly =
     (case is_nondominated lib_is_nondominated data maximise keep_weakly of
        Inl e \<Rightarrow> Inl e
      | Inr nondom \<Rightarrow> Inr (select_rows data nondom))"

text \<open>
  \<^verbatim>\<open>np.fromiter(items, dtype=float, count=n)\<close> where each item is the boolean array returned
  by \<^verbatim>\<open>is_nondominated\<close>: it takes \<open>n\<close> items from the generator, one after the other, and
  stores each as one float. An item that raises ends it with that exception; an array of
  one entry converts to a float, an array of any other length does not (\<^verbatim>\<open>ValueError\<close>);
  a generator that ends before \<open>n\<close> items is a \<^verbatim>\<open>ValueError\<close> too.
\<close>

fun np_fromiter_float :: "(error + bool list) list \<Rightarrow> nat \<Rightarrow> error + real list" where
  "np_fromiter_float items 0 = Inr []"
| "np_fromiter_float [] (Suc n) = Inl ValueError"
| "np_fromiter_float (Inl e # items) (Suc n) = Inl e"
| "np_fromiter_float (Inr [v] # items) (Suc n) =
     (case np_fromiter_float items n of
        Inl e \<Rightarrow> Inl e
      | Inr fs \<Rightarrow> Inr ((if v then 1 else 0) # fs))"
| "np_fromiter_float (Inr _ # items) (Suc n) = Inl ValueError"

text \<open>
  \<^verbatim>\<open>data[index, :]\<close> where \<open>index\<close> is an array of floats: NumPy accepts an index array of
  integer or boolean type only, and raises \<^verbatim>\<open>IndexError\<close> for this one.
\<close>

definition index_rows_by_floats :: "ndarray \<Rightarrow> real list \<Rightarrow> error + ndarray" where
  "index_rows_by_floats data index = Inl IndexError"

definition filter_dominated_sets ::
  "is_nondominated_t \<Rightarrow> ndarray \<Rightarrow> bool list \<Rightarrow> bool \<Rightarrow> error + ndarray" where
  "filter_dominated_sets lib_is_nondominated data maximise keep_weakly =
     (if ncols data < 3 then Inl ValueError
      else
        let uniq_index = np_unique_index (last_col data);
            x_split = np_vsplit (drop_last_col data) (tl uniq_index)
        in (case np_fromiter_float
                   (map (\<lambda>g. is_nondominated lib_is_nondominated g maximise keep_weakly) x_split)
                   (length (rows data)) of
              Inl e \<Rightarrow> Inl e
            | Inr is_nondom \<Rightarrow> index_rows_by_floats data is_nondom))"

section \<open>Normalise\<close>

text \<open>
  Arrays are objects: a Python name holds a reference to an array, and the native routine
  \<^verbatim>\<open>lib.agree_normalise\<close> writes into the buffer it is given. The heap is the list of the
  arrays allocated so far; a reference is an index into it.
\<close>

type_synonym heap = "ndarray list"

type_synonym agree_normalise_t =
  "real list list \<Rightarrow> nat \<Rightarrow> nat \<Rightarrow> bool list \<Rightarrow> real \<Rightarrow> real \<Rightarrow> real list \<Rightarrow> real list
   \<Rightarrow> real list list"

text \<open>
  \<^verbatim>\<open>data.min(axis=0)\<close> and \<^verbatim>\<open>data.max(axis=0)\<close>: the extreme value of every column; an array
  with no row has none (\<^verbatim>\<open>ValueError\<close>).
\<close>

definition np_min_axis0 :: "ndarray \<Rightarrow> error + real list" where
  "np_min_axis0 A =
     (if rows A = [] then Inl ValueError
      else Inr (map (\<lambda>j. Min (set (map (\<lambda>r. r ! j) (rows A)))) [0 ..< ncols A]))"

definition np_max_axis0 :: "ndarray \<Rightarrow> error + real list" where
  "np_max_axis0 A =
     (if rows A = [] then Inl ValueError
      else Inr (map (\<lambda>j. Max (set (map (\<lambda>r. r ! j) (rows A)))) [0 ..< ncols A]))"

text \<open>
  A bound is a finite value or NaN (\<open>None\<close>), which stands for the observed extreme:
  \<^verbatim>\<open>if np.any(np.isnan(bound)): bound = np.where(np.isnan(bound), extreme, bound)\<close>.
  The extremes are computed only when some bound is NaN.
\<close>

definition fill_nan :: "real option list \<Rightarrow> error + real list \<Rightarrow> error + real list" where
  "fill_nan bound extreme =
     (if \<exists>v \<in> set bound. v = None then
        (case extreme of
           Inl e \<Rightarrow> Inl e
         | Inr ex \<Rightarrow> Inr (map2 (\<lambda>v m. case v of None \<Rightarrow> m | Some w \<Rightarrow> w) bound ex))
      else Inr (map the bound))"

text \<open>
  \<^verbatim>\<open>normalise(data, to_range, lower, upper, maximise)\<close> on the heap \<open>h\<close>, where \<open>data\<close> is the
  reference the caller passes. \<^verbatim>\<open>np.asfarray(data).copy()\<close> allocates a new array with the
  contents of the caller's; the native routine rescales that new array in place; the
  result is a reference to it.
\<close>

definition normalise ::
  "agree_normalise_t \<Rightarrow> heap \<Rightarrow> nat \<Rightarrow> real list \<Rightarrow> real option list \<Rightarrow> real option list \<Rightarrow>
   bool list \<Rightarrow> (error + nat) \<times> heap" where
  "normalise agree_normalise h data to_range lower upper maximise =
     (let copy = length h;
          h1 = h @ [h ! data];
          A = h1 ! copy;
          npoints = length (rows A);
          nobj = ncols A
      in if nobj = 1 then (Inl ValueError, h1)
         else if length to_range \<noteq> 2 then (Inl ValueError, h1)
         else (case atleast_1d_of_length_n lower nobj of
                 Inl e \<Rightarrow> (Inl e, h1)
               | Inr lower1 \<Rightarrow>
           (case atleast_1d_of_length_n upper nobj of
              Inl e \<Rightarrow> (Inl e, h1)
            | Inr upper1 \<Rightarrow>
           (case fill_nan lower1 (np_min_axis0 A) of
              Inl e \<Rightarrow> (Inl e, h1)
            | Inr lbound \<Rightarrow>
           (case fill_nan upper1 (np_max_axis0 A) of
              Inl e \<Rightarrow> (Inl e, h1)
            | Inr ubound \<Rightarrow>
           (case parse_maximise maximise nobj of
              Inl e \<Rightarrow> (Inl e, h1)
            | Inr maximise_p \<Rightarrow>
                (Inr copy,
                 h1[copy := \<lparr>ncols = nobj,
                             rows = agree_normalise (rows A) nobj npoints maximise_p
                                      (to_range ! 0) (to_range ! 1) lbound ubound\<rparr>])))))))"

section \<open>The native routines as the specification describes them\<close>

text \<open>
  Modelled from the spec: \<^verbatim>\<open>lib.fpli_hv\<close>, the native hypervolume routine, which is not in
  the sources. Section 4.2 of the specification: the result is the measure of the union,
  over the points \<open>p\<close>, of the boxes \<open>[p, reference]\<close>, each side clamped at zero; no point
  gives 0. The union is measured by inclusion and exclusion (the intersection of the boxes
  of \<open>p\<close> and \<open>q\<close> is the box of their coordinatewise maximum), and a measure beyond the
  largest finite double is the infinity it overflows to.
\<close>

definition box_volume :: "real list \<Rightarrow> real list \<Rightarrow> real" where
  "box_volume p ref = prod_list (map2 (\<lambda>r x. max (r - x) 0) ref p)"

function union_volume :: "real list list \<Rightarrow> real list \<Rightarrow> real" where
  "union_volume [] ref = 0"
| "union_volume (p # ps) ref =
     box_volume p ref + union_volume ps ref - union_volume (map (map2 max p) ps) ref"
  by pat_completeness auto
termination
  by (relation "measure (\<lambda>(ps, ref). length ps)") auto

definition DBL_MAX :: real where
  "DBL_MAX = (2 - 1 / 2 ^ 52) * 2 ^ 1023"

definition to_double :: "real \<Rightarrow> double" where
  "to_double x = (if x > DBL_MAX then PInf else if x < - DBL_MAX then NInf else Fin x)"

definition fpli_hv_spec :: fpli_hv_t where
  "fpli_hv_spec data nobj npoints ref = to_double (union_volume data ref)"

text \<open>
  Modelled from the spec: \<^verbatim>\<open>lib.agree_normalise\<close>, which is not in the sources. Section 6:
  a per-coordinate affine rescale of \<open>[lower, upper]\<close> onto the range; if the objective is
  maximised, the endpoints of the range are swapped.
\<close>

definition agree_normalise_spec :: agree_normalise_t where
  "agree_normalise_spec data nobj npoints maximise lo hi lbound ubound =
     map (\<lambda>r. map (\<lambda>k. let t = (r ! k - lbound ! k) / (ubound ! k - lbound ! k)
                        in if maximise ! k then hi + t * (lo - hi) else lo + t * (hi - lo))
                   [0 ..< nobj]) data"

text \<open>
  Modelled from the spec: \<^verbatim>\<open>lib.eaf_compute_matrix\<close>, which is not in the sources.
  Section 4.4: the sets are the consecutive blocks of rows that end at the cumulative
  sizes; a point is attained by a set when a point of the set is no larger in every
  objective; for a percentile \<open>c\<close> the output holds the nondominated points among those
  attained by at least \<open>\<lceil>c m / 100\<rceil>\<close> of the \<open>m\<close> sets, each with \<open>c\<close> as its last column.
  The minimal attained points lie on the grid spanned by the coordinates of the data.
\<close>

definition eaf_runs :: "real list list \<Rightarrow> nat list \<Rightarrow> real list list list" where
  "eaf_runs data cumsizes =
     map (\<lambda>(st, en). take (en - st) (drop st data)) (zip (0 # butlast cumsizes) cumsizes)"

definition attains :: "real list list \<Rightarrow> real list \<Rightarrow> bool" where
  "attains run x = (\<exists>p \<in> set run. list_all2 (\<le>) p x)"

definition eaf_level_front :: "real list list \<Rightarrow> nat \<Rightarrow> nat list \<Rightarrow> real \<Rightarrow> real list list" where
  "eaf_level_front data nobj cumsizes c =
     (let runs = eaf_runs data cumsizes;
          level = nat \<lceil>c * real (length runs) / 100\<rceil>;
          grid = product_lists (map (\<lambda>k. remdups (map (\<lambda>r. r ! k) data)) [0 ..< nobj]);
          attained = filter (\<lambda>x. level \<le> length (filter (\<lambda>run. attains run x) runs)) grid
      in filter (\<lambda>x. \<not> (\<exists>y \<in> set attained. y \<noteq> x \<and> list_all2 (\<le>) y x)) attained)"

definition eaf_compute_matrix_spec :: eaf_compute_matrix_t where
  "eaf_compute_matrix_spec data nobj cumsizes percentiles =
     concat (map (\<lambda>c. map (\<lambda>x. x @ [c]) (eaf_level_front data nobj cumsizes c)) percentiles)"

text \<open>
  Modelled from the spec: \<^verbatim>\<open>lib.epsilon_mult\<close>, which is not in the sources. Sections 4.3
  and 7: a coordinate of either set that is not strictly positive is a domain error, fatal
  to the call, found before the indicator is computed. Otherwise the result is the maximum
  over the reference points \<open>r\<close> of the minimum over the points \<open>a\<close> of the largest ratio
  \<open>a\<^sub>k / r\<^sub>k\<close>, the smallest factor by which \<open>a\<close> must be shifted to weakly dominate \<open>r\<close>; for
  an objective that is maximised the orientation is reversed and the ratio is \<open>r\<^sub>k / a\<^sub>k\<close>.
  The formula has no value for an empty set or no objective: NaN stands for that.
\<close>

definition epsilon_ratio :: "bool list \<Rightarrow> nat \<Rightarrow> real list \<Rightarrow> real list \<Rightarrow> real" where
  "epsilon_ratio maximise k a r = (if maximise ! k then r ! k / a ! k else a ! k / r ! k)"

definition epsilon_mult_spec :: epsilon_t where
  "epsilon_mult_spec data nobj npoints ref ref_size maximise =
     (if \<exists>p \<in> set (data @ ref). \<exists>v \<in> set p. v \<le> 0 then Fatal
      else if data = [] \<or> ref = [] \<or> nobj = 0 then Returned NaN
      else Returned (Fin (Max (set (map (\<lambda>r.
              Min (set (map (\<lambda>a. Max (set (map (\<lambda>k. epsilon_ratio maximise k a r) [0 ..< nobj])))
                            data)))
              ref)))))"

text \<open>
  Modelled from the spec: \<^verbatim>\<open>lib.avg_Hausdorff_dist\<close>, which is not in the sources.
  Section 4.3: the larger of the two generalised means, of order \<open>p\<close>, of the Euclidean
  distances from each point of one set to the nearest point of the other. The
  specification defines it for a positive \<open>p\<close> and sets that are not empty: NaN stands for
  the other cases.
\<close>

definition euclid_dist :: "real list \<Rightarrow> real list \<Rightarrow> real" where
  "euclid_dist a r = sqrt (sum_list (map2 (\<lambda>x y. (x - y)\<^sup>2) a r))"

definition gen_dist :: "nat \<Rightarrow> real list list \<Rightarrow> real list list \<Rightarrow> real" where
  "gen_dist p A R =
     root p (sum_list (map (\<lambda>a. (Min (set (map (euclid_dist a) R))) ^ p) A) / real (length A))"

definition avg_Hausdorff_dist_spec :: avg_Hausdorff_dist_t where
  "avg_Hausdorff_dist_spec data nobj npoints ref ref_size maximise p =
     (if data = [] \<or> ref = [] \<or> p = 0 then NaN
      else Fin (max (gen_dist (unat p) data ref) (gen_dist (unat p) ref data)))"

section \<open>The statements of the specification\<close>

text \<open>
  The runs of a dataset are its sets: for each distinct set identifier, the rows that carry
  it, without the set column.
\<close>

definition run_of :: "ndarray \<Rightarrow> real \<Rightarrow> ndarray" where
  "run_of data k = drop_last_col (rows_of_set k data)"

text \<open>
  Section 4.5 of the specification, on \<^verbatim>\<open>vorobT\<close>:
  \<^verbatim>\<open>avg_hyp = mean over runs of hypervolume(run, reference)\<close>, every run counting once.
\<close>

definition avg_hyp_spec :: "fpli_hv_t \<Rightarrow> ndarray \<Rightarrow> real list \<Rightarrow> error + double" where
  "avg_hyp_spec fpli_hv data reference =
     (case collect (map (\<lambda>k. hypervolume fpli_hv (run_of data k) reference)
                        (np_unique (last_col data))) of
        Inl e \<Rightarrow> Inl e
      | Inr hyps \<Rightarrow> Inr (np_mean hyps))"

text \<open>
  Section 4.5 of the specification, on \<^verbatim>\<open>vorobDev\<close>:
  \<^verbatim>\<open>VD = 2 mean_over_runs(hypervolume(run U VE, reference))
       - mean_over_runs(hypervolume(run, reference)) - hypervolume(VE, reference)\<close>.
\<close>

definition vorobDev_spec :: "fpli_hv_t \<Rightarrow> ndarray \<Rightarrow> real list \<Rightarrow> ndarray \<Rightarrow> double" where
  "vorobDev_spec fpli_hv x reference ve =
     (let ids = np_unique (last_col x);
          nobj = ncols x - 1;
          hv = (\<lambda>pts. fpli_hv pts nobj (length pts) reference)
      in dsub (dsub (dtwice (np_mean (map (\<lambda>k. hv (rows (run_of x k) @ rows ve)) ids)))
                    (np_mean (map (\<lambda>k. hv (rows (run_of x k))) ids)))
              (hv (rows ve)))"

section \<open>Properties\<close>

subsection \<open>The EAF wrapper\<close>

lemma length_cumsum_from: "length (cumsum_from acc xs) = length xs"
  by (induction xs arbitrary: acc) auto

lemma length_np_unique: "length (np_unique xs) = card (set xs)"
  by (simp add: np_unique_def length_remdups_card_conv)

lemma nsets_eq: "length (np_cumsum (np_unique_counts (last_col data))) = card (set (last_col data))"
  by (simp add: np_cumsum_def np_unique_counts_def length_cumsum_from length_np_unique)

lemma nsets_pos: "rows data \<noteq> [] \<Longrightarrow> 0 < card (set (last_col data))"
  by (simp add: last_col_def card_gt_0_iff)

text \<open>
  With three or four columns and at least one row, \<^verbatim>\<open>eaf\<close> reaches the native routine: it
  hands it the objective columns, the cumulative sizes of the sets and the percentiles, and
  returns its records.
\<close>

lemma eaf_proceeds:
  assumes "3 \<le> ncols data" and "ncols data \<le> 4" and "rows data \<noteq> []"
  shows "eaf ecm data pct =
        (let m = card (set (last_col data));
             levels = (if pct = [] then map (\<lambda>k. real k * (100 / real m)) [1 ..< m + 1]
                       else np_unique pct);
             eaf_data = ecm (map butlast (rows data)) (ncols data - 1)
                          (np_cumsum (np_unique_counts (last_col data))) levels
         in if eaf_data = [] then Inl ValueError
            else Inr \<lparr>ncols = ncols data, rows = eaf_data\<rparr>)"
proof -
  have m: "0 < card (set (last_col data))" using assms(3) by (rule nsets_pos)
  have p: "eaf_percentiles (card (set (last_col data))) pct =
     Inr (if pct = [] then map (\<lambda>k. real k * (100 / real (card (set (last_col data)))))
                                [1 ..< card (set (last_col data)) + 1]
          else np_unique pct)"
    using m by (auto simp: eaf_percentiles_def)
  show ?thesis
    using assms by (simp add: eaf_def Let_def nsets_eq p drop_last_col_def)
qed

lemma eaf_example_levels:
  "eaf_compute_matrix_spec [[1, 3], [3, 1], [2, 2]] 2 [2, 3] [50, 100]
     = [[1, 3, 50], [3, 1, 50], [2, 2, 50], [3, 2, 100], [2, 3, 100]]"
  "eaf_compute_matrix_spec [[1, 3], [3, 1], [2, 2]] 2 [Suc (Suc 0), Suc (Suc (Suc 0))] [50, 100]
     = [[1, 3, 50], [3, 1, 50], [2, 2, 50], [3, 2, 100], [2, 3, 100]]"
  by code_simp+

lemma np_unique_examples: "np_unique [50, 100] = [50, 100]" "np_unique [1, 1, 2] = [1, 2]"
  by (simp_all add: np_unique_def)

text \<open>
  C6. \<^verbatim>\<open>eaf\<close> raises \<^verbatim>\<open>ValueError\<close> for a dataset of fewer than three columns and
  \<^verbatim>\<open>NotImplementedError\<close> for one of more than four columns (more than three objectives),
  whatever the native routine would compute; for a dataset of three or four columns (two
  or three objectives, at least one row) it proceeds: the result is what the native routine
  returns for the objective columns, the cumulative set sizes and the percentiles.
\<close>

theorem eaf_dimension_check:
  "(ncols data < 3 \<longrightarrow> eaf ecm data pct = Inl ValueError) \<and>
   (ncols data > 4 \<longrightarrow> eaf ecm data pct = Inl NotImplementedError) \<and>
   (3 \<le> ncols data \<and> ncols data \<le> 4 \<and> rows data \<noteq> [] \<longrightarrow>
      eaf ecm data pct =
        (let m = card (set (last_col data));
             levels = (if pct = [] then map (\<lambda>k. real k * (100 / real m)) [1 ..< m + 1]
                       else np_unique pct);
             eaf_data = ecm (map butlast (rows data)) (ncols data - 1)
                          (np_cumsum (np_unique_counts (last_col data))) levels
         in if eaf_data = [] then Inl ValueError
            else Inr \<lparr>ncols = ncols data, rows = eaf_data\<rparr>))"
proof (intro conjI impI)
  assume "ncols data < 3" then show "eaf ecm data pct = Inl ValueError"
    by (simp add: eaf_def)
next
  assume "ncols data > 4" then show "eaf ecm data pct = Inl NotImplementedError"
    by (simp add: eaf_def)
next
  assume h: "3 \<le> ncols data \<and> ncols data \<le> 4 \<and> rows data \<noteq> []"
  then show "eaf ecm data pct =
        (let m = card (set (last_col data));
             levels = (if pct = [] then map (\<lambda>k. real k * (100 / real m)) [1 ..< m + 1]
                       else np_unique pct);
             eaf_data = ecm (map butlast (rows data)) (ncols data - 1)
                          (np_cumsum (np_unique_counts (last_col data))) levels
         in if eaf_data = [] then Inl ValueError
            else Inr \<lparr>ncols = ncols data, rows = eaf_data\<rparr>)"
    using eaf_proceeds by blast
qed

theorem eaf_dimension_check_witness:
  "eaf eaf_compute_matrix_spec \<lparr>ncols = 2, rows = [[1, 1]]\<rparr> [50, 100] = Inl ValueError \<and>
   eaf eaf_compute_matrix_spec \<lparr>ncols = 5, rows = [[1, 1, 1, 1, 1]]\<rparr> [50, 100]
     = Inl NotImplementedError \<and>
   eaf eaf_compute_matrix_spec \<lparr>ncols = 3, rows = [[1, 3, 1], [3, 1, 1], [2, 2, 2]]\<rparr> [50, 100] =
     Inr \<lparr>ncols = 3, rows = [[1, 3, 50], [3, 1, 50], [2, 2, 50], [3, 2, 100], [2, 3, 100]]\<rparr>"
  using eaf_dimension_check [of "\<lparr>ncols = 2, rows = [[1, 1]]\<rparr>" eaf_compute_matrix_spec "[50, 100]"]
        eaf_dimension_check [of "\<lparr>ncols = 5, rows = [[1, 1, 1, 1, 1]]\<rparr>" eaf_compute_matrix_spec
                                "[50, 100]"]
        eaf_dimension_check [of "\<lparr>ncols = 3, rows = [[1, 3, 1], [3, 1, 1], [2, 2, 2]]\<rparr>"
                                eaf_compute_matrix_spec "[50, 100]"]
  by (simp add: np_unique_examples last_col_def np_unique_counts_def np_cumsum_def
                eaf_example_levels)

text \<open>
  C7. For a dataset of three or four columns with \<open>m\<close> distinct set identifiers (and at
  least one row), \<^verbatim>\<open>eaf\<close> called with an empty list of percentiles asks the native routine
  for exactly the \<open>m\<close> natural levels \<open>100/m, 200/m, ..., 100\<close> and returns its records.
\<close>

theorem eaf_natural_levels:
  assumes "3 \<le> ncols data" and "ncols data \<le> 4" and "rows data \<noteq> []"
    and "m = card (set (last_col data))"
  shows "0 < m \<and>
     eaf ecm data [] =
        (let eaf_data = ecm (map butlast (rows data)) (ncols data - 1)
                          (np_cumsum (np_unique_counts (last_col data)))
                          (map (\<lambda>k. 100 * real k / real m) [1 ..< m + 1])
         in if eaf_data = [] then Inl ValueError
            else Inr \<lparr>ncols = ncols data, rows = eaf_data\<rparr>)"
proof -
  have m: "0 < m" using assms(3,4) nsets_pos by blast
  have "(\<lambda>k. real k * (100 / real m)) = (\<lambda>k. 100 * real k / real m)"
    by (rule ext) simp
  then show ?thesis
    using eaf_proceeds [OF assms(1,2,3), of ecm "[]"] m assms(4) by (simp add: Let_def)
qed

theorem eaf_natural_levels_witness:
  "eaf eaf_compute_matrix_spec \<lparr>ncols = 3, rows = [[1, 3, 1], [3, 1, 1], [2, 2, 2]]\<rparr> [] =
     Inr \<lparr>ncols = 3, rows = [[1, 3, 50], [3, 1, 50], [2, 2, 50], [3, 2, 100], [2, 3, 100]]\<rparr>"
  using eaf_natural_levels [of "\<lparr>ncols = 3, rows = [[1, 3, 1], [3, 1, 1], [2, 2, 2]]\<rparr>" 2
                               eaf_compute_matrix_spec]
  by (simp add: last_col_def np_unique_counts_def np_cumsum_def np_unique_examples
                eaf_example_levels upt_rec)

subsection \<open>Distance indicators\<close>

lemma unary_refset_common_eq:
  "unary_refset_common data ref mx =
     (if ncols data \<noteq> ncols ref \<or> (length mx \<noteq> 1 \<and> length mx \<noteq> ncols data)
      then Inl ValueError
      else Inr (rows data, ncols data, length (rows data), rows ref, length (rows ref),
                if length mx = 1 then replicate (ncols data) (hd mx) else mx))"
  by (simp add: unary_refset_common_def parse_maximise_def atleast_1d_of_length_n_def Let_def)

text \<open>
  C9. \<^verbatim>\<open>avg_hausdorff_dist\<close> raises \<^verbatim>\<open>ValueError\<close> for every \<open>p \<le> 0\<close>, whatever the other
  arguments and whatever the native routine computes; for every \<open>p > 0\<close> and well-shaped
  inputs (matching column counts, \<open>maximise\<close> of one entry or one per objective) it returns
  the distance computed by the native routine. Here \<open>p\<close> is a finite number.
\<close>

theorem avg_hausdorff_dist_rejects_iff:
  "(p \<le> 0 \<longrightarrow> avg_hausdorff_dist f data ref mx p = Inl ValueError) \<and>
   (0 < p \<and> ncols data = ncols ref \<and> (length mx = 1 \<or> length mx = ncols data) \<longrightarrow>
      avg_hausdorff_dist f data ref mx p =
        Inr (f (rows data) (ncols data) (length (rows data)) (rows ref) (length (rows ref))
               (if length mx = 1 then replicate (ncols data) (hd mx) else mx)
               (cast_unsigned_int p)))"
  by (auto simp: avg_hausdorff_dist_def unary_refset_common_eq)

theorem avg_hausdorff_dist_rejects_iff_witness:
  "avg_hausdorff_dist avg_Hausdorff_dist_spec \<lparr>ncols = 2, rows = [[1, 2]]\<rparr>
      \<lparr>ncols = 2, rows = [[2, 1]]\<rparr> [False, False] 0 = Inl ValueError \<and>
   avg_hausdorff_dist avg_Hausdorff_dist_spec \<lparr>ncols = 2, rows = [[1, 2]]\<rparr>
      \<lparr>ncols = 2, rows = [[2, 1]]\<rparr> [False, False] 2 =
     Inr (avg_Hausdorff_dist_spec [[1, 2]] 2 1 [[2, 1]] 1 [False, False] 2)"
  using avg_hausdorff_dist_rejects_iff [of 0 avg_Hausdorff_dist_spec "\<lparr>ncols = 2, rows = [[1, 2]]\<rparr>"
          "\<lparr>ncols = 2, rows = [[2, 1]]\<rparr>" "[False, False]"]
        avg_hausdorff_dist_rejects_iff [of 2 avg_Hausdorff_dist_spec "\<lparr>ncols = 2, rows = [[1, 2]]\<rparr>"
          "\<lparr>ncols = 2, rows = [[2, 1]]\<rparr>" "[False, False]"]
  by (simp add: cast_unsigned_int_def)

text \<open>The conversion to \<^verbatim>\<open>unsigned int\<close> sees only the integer part of a number.\<close>

lemma cast_unsigned_int_floor: "0 \<le> p \<Longrightarrow> cast_unsigned_int (of_int \<lfloor>p\<rfloor>) = cast_unsigned_int p"
  by (simp add: cast_unsigned_int_def)

text \<open>
  C10 (as amended). For every \<open>p > 0\<close> the native distance routine receives \<open>p\<close> truncated to
  an unsigned integer, \<open>\<lfloor>p\<rfloor>\<close> modulo \<open>2 ^ 32\<close>. For every \<open>p \<ge> 1\<close> the calls with \<open>p\<close> and with
  \<open>\<lfloor>p\<rfloor>\<close> return the same result. For \<open>0 < p < 1\<close> the call with \<open>p\<close> passes the positivity
  check and uses \<open>0\<close>, whereas the call with \<open>\<lfloor>p\<rfloor> = 0\<close> is rejected.
\<close>

theorem avg_hausdorff_dist_truncates_p:
  "(0 < p \<longrightarrow>
      avg_hausdorff_dist f data ref mx p =
        (case unary_refset_common data ref mx of
           Inl e \<Rightarrow> Inl e
         | Inr (data_p, nobj, npoints, ref_p, ref_size, maximise_p) \<Rightarrow>
             Inr (f data_p nobj npoints ref_p ref_size maximise_p (word_of_int \<lfloor>p\<rfloor>)))) \<and>
   (1 \<le> p \<longrightarrow>
      avg_hausdorff_dist f data ref mx (of_int \<lfloor>p\<rfloor>) = avg_hausdorff_dist f data ref mx p) \<and>
   (0 < p \<and> p < 1 \<longrightarrow>
      (word_of_int \<lfloor>p\<rfloor> :: 32 word) = 0 \<and>
      avg_hausdorff_dist f data ref mx (of_int \<lfloor>p\<rfloor>) = Inl ValueError)"
proof (intro conjI impI)
  assume "0 < p"
  then show "avg_hausdorff_dist f data ref mx p =
        (case unary_refset_common data ref mx of
           Inl e \<Rightarrow> Inl e
         | Inr (data_p, nobj, npoints, ref_p, ref_size, maximise_p) \<Rightarrow>
             Inr (f data_p nobj npoints ref_p ref_size maximise_p (word_of_int \<lfloor>p\<rfloor>)))"
    by (simp add: avg_hausdorff_dist_def cast_unsigned_int_def Let_def split: sum.splits)
next
  assume h: "1 \<le> p"
  then have "1 \<le> \<lfloor>p\<rfloor>" by linarith
  then have pos: "\<not> (of_int \<lfloor>p\<rfloor> :: real) \<le> 0" by linarith
  have "cast_unsigned_int (of_int \<lfloor>p\<rfloor>) = cast_unsigned_int p"
    using h by (simp add: cast_unsigned_int_floor)
  then show "avg_hausdorff_dist f data ref mx (of_int \<lfloor>p\<rfloor>) = avg_hausdorff_dist f data ref mx p"
    using h pos by (simp add: avg_hausdorff_dist_def Let_def split: sum.splits)
next
  assume h: "0 < p \<and> p < 1"
  then have z: "\<lfloor>p\<rfloor> = 0" by linarith
  then show "(word_of_int \<lfloor>p\<rfloor> :: 32 word) = 0" by simp
  show "avg_hausdorff_dist f data ref mx (of_int \<lfloor>p\<rfloor>) = Inl ValueError"
    using z by (simp add: avg_hausdorff_dist_def)
qed

theorem avg_hausdorff_dist_truncates_p_witness:
  "avg_hausdorff_dist avg_Hausdorff_dist_spec \<lparr>ncols = 2, rows = [[1, 2]]\<rparr>
      \<lparr>ncols = 2, rows = [[2, 1]]\<rparr> [False, False] (5 / 2) =
     Inr (avg_Hausdorff_dist_spec [[1, 2]] 2 1 [[2, 1]] 1 [False, False] 2) \<and>
   avg_hausdorff_dist avg_Hausdorff_dist_spec \<lparr>ncols = 2, rows = [[1, 2]]\<rparr>
      \<lparr>ncols = 2, rows = [[2, 1]]\<rparr> [False, False] (of_int \<lfloor>5 / 2 :: real\<rfloor>) =
   avg_hausdorff_dist avg_Hausdorff_dist_spec \<lparr>ncols = 2, rows = [[1, 2]]\<rparr>
      \<lparr>ncols = 2, rows = [[2, 1]]\<rparr> [False, False] (5 / 2) \<and>
   avg_hausdorff_dist avg_Hausdorff_dist_spec \<lparr>ncols = 2, rows = [[1, 2]]\<rparr>
      \<lparr>ncols = 2, rows = [[2, 1]]\<rparr> [False, False] (of_int \<lfloor>1 / 2 :: real\<rfloor>) = Inl ValueError"
  using avg_hausdorff_dist_truncates_p [of "5 / 2" avg_Hausdorff_dist_spec
          "\<lparr>ncols = 2, rows = [[1, 2]]\<rparr>" "\<lparr>ncols = 2, rows = [[2, 1]]\<rparr>" "[False, False]"]
        avg_hausdorff_dist_truncates_p [of "1 / 2" avg_Hausdorff_dist_spec
          "\<lparr>ncols = 2, rows = [[1, 2]]\<rparr>" "\<lparr>ncols = 2, rows = [[2, 1]]\<rparr>" "[False, False]"]
  by (simp add: unary_refset_common_eq)

text \<open>
  The claim as stated fails at \<open>p = 0.5\<close>: the call with \<open>p\<close> returns a value, the call with
  \<open>\<lfloor>p\<rfloor>\<close> raises.
\<close>

theorem avg_hausdorff_dist_floor_counterexample:
  "avg_hausdorff_dist avg_Hausdorff_dist_spec \<lparr>ncols = 2, rows = [[1, 2]]\<rparr>
      \<lparr>ncols = 2, rows = [[2, 1]]\<rparr> [False, False] (1 / 2) \<noteq>
   avg_hausdorff_dist avg_Hausdorff_dist_spec \<lparr>ncols = 2, rows = [[1, 2]]\<rparr>
      \<lparr>ncols = 2, rows = [[2, 1]]\<rparr> [False, False] (of_int \<lfloor>1 / 2 :: real\<rfloor>)"
  by (simp add: avg_hausdorff_dist_def unary_refset_common_eq)

subsection \<open>Filtering every set of a dataset\<close>

text \<open>
  \<^verbatim>\<open>filter_dominated_sets\<close> never returns an array: when \<^verbatim>\<open>np.fromiter\<close> succeeds, its result
  is an array of floats, which NumPy rejects as an index.
\<close>

lemma filter_dominated_sets_never_returns:
  "\<exists>e. filter_dominated_sets nd data mx kw = Inl e"
  by (simp add: filter_dominated_sets_def index_rows_by_floats_def Let_def split: sum.splits)

lemma np_unique_index_example: "np_unique_index [1, 1, 1] = [0]"
  by (simp add: np_unique_index_def np_unique_def first_index_def)

text \<open>
  C3. The claim is that \<^verbatim>\<open>filter_dominated_sets\<close> returns, set by set, the rows that the
  dominance filter keeps (here: the rows \<open>[1, 2, 1]\<close> and \<open>[2, 1, 1]\<close>, since \<open>[3, 3]\<close> is
  dominated). The code does not: on this dataset of one set with three points, whose set
  identifiers are contiguous, the generator handed to \<^verbatim>\<open>np.fromiter\<close> yields the mask of the
  whole set, an array of three booleans where one float is expected, and the call ends
  with \<^verbatim>\<open>ValueError\<close>, whatever the native dominance routine answers.
\<close>

theorem filter_dominated_sets_raises:
  "filter_dominated_sets nd \<lparr>ncols = 3, rows = [[1, 2, 1], [2, 1, 1], [3, 3, 1]]\<rparr> [False] False
     = Inl ValueError"
  by (simp add: filter_dominated_sets_def last_col_def np_unique_index_example np_vsplit_def
        drop_last_col_def is_nondominated_def parse_maximise_def atleast_1d_of_length_n_def
        Let_def upt_rec numeral_3_eq_3)

subsection \<open>The average hypervolume of \<^verbatim>\<open>vorobT\<close>\<close>

text \<open>The \<open>avg_hyp\<close> that \<^verbatim>\<open>vorobT\<close> returns is the value computed before the loop.\<close>

lemma vorobT_loop_avg_hyp:
  assumes "vorobT_loop f e data ref nobjs avg a b prev = Some r"
  shows "\<forall>res. r = Inr res \<longrightarrow> avg_hyp res = avg"
  using assms
proof (induction rule: vorobT_loop.raw_induct [rotated, consumes 1])
  case (1 loop f e data ref nobjs avg a b prev r)
  then show ?case
    by (auto split: sum.splits prod.splits if_splits)
qed

lemma vorobT_returns_avg_hyp:
  "vorobT f e data ref = Some (Inr res) \<Longrightarrow> vorobT_avg_hyp f data ref = Inr (avg_hyp res)"
  by (auto simp: vorobT_def split: if_splits sum.splits dest: vorobT_loop_avg_hyp)

lemma DBL_MAX_large: "1000 < DBL_MAX"
  by (simp add: DBL_MAX_def)

lemma to_double_small: "\<bar>x\<bar> \<le> 1000 \<Longrightarrow> to_double x = Fin x"
  using DBL_MAX_large unfolding to_double_def by (auto simp: abs_le_iff)

lemma hv_examples:
  "fpli_hv_spec [[5, 5]] 2 n [10, 10] = Fin 25"
  "fpli_hv_spec [[1, 1], [2, 2]] 2 n [10, 10] = Fin 81"
  by (simp_all add: fpli_hv_spec_def to_double_small box_volume_def)

lemma np_unique_122: "np_unique [1, 2, 2] = [1, 2]"
  by (simp add: np_unique_def)

text \<open>
  C1. The claim is that \<open>avg_hyp\<close> is the unweighted mean, over the runs, of the hypervolume
  of each run. The code does not compute it: its comprehension runs over the set column
  (\<^verbatim>\<open>for k in sets\<close>) and not over the distinct identifiers (\<^verbatim>\<open>uniq_sets\<close>, computed on the
  line before and never used), so a run of \<open>n\<close> points is counted \<open>n\<close> times. For run 1 =
  \<open>{(5, 5)}\<close>, of hypervolume 25, and run 2 = \<open>{(1, 1), (2, 2)}\<close>, of hypervolume 81, with the
  reference \<open>(10, 10)\<close>, the code's \<open>avg_hyp\<close> is \<open>(25 + 81 + 81) / 3 = 187 / 3\<close>, where the
  mean over the two runs is \<open>53\<close>.
\<close>

theorem vorobT_avg_hyp_weighs_runs_by_size:
  "vorobT_avg_hyp fpli_hv_spec \<lparr>ncols = 3, rows = [[5, 5, 1], [1, 1, 2], [2, 2, 2]]\<rparr> [10, 10]
     = Inr (Fin (187 / 3)) \<and>
   avg_hyp_spec fpli_hv_spec \<lparr>ncols = 3, rows = [[5, 5, 1], [1, 1, 2], [2, 2, 2]]\<rparr> [10, 10]
     = Inr (Fin 53)"
  by (simp add: vorobT_avg_hyp_def avg_hyp_spec_def run_of_def last_col_def rows_of_set_def
        drop_last_col_def hypervolume_def atleast_1d_of_length_n_def np_unique_122
        hv_examples np_mean_def Let_def)

subsection \<open>Normalise and the caller's array\<close>

text \<open>Whatever it returns, \<^verbatim>\<open>normalise\<close> adds one array to the heap and changes no other.\<close>

lemma normalise_heap_shape:
  "\<exists>A. snd (normalise agree h data tr lo up mx) = h @ [A]"
  by (simp add: normalise_def Let_def split: sum.splits)

lemma normalise_result_ref:
  "fst (normalise agree h data tr lo up mx) = Inr c \<Longrightarrow> c = length h"
  by (simp add: normalise_def Let_def split: sum.splits if_splits)

lemma col_extremes:
  "Min (set [7 / 2, 18 / 5, 41 / 10, 11 / 2 :: real]) = 7 / 2"
  "Max (set [7 / 2, 18 / 5, 41 / 10, 11 / 2 :: real]) = 11 / 2"
  "Min (set [11 / 2, 41 / 10, 16 / 5, 3 / 2 :: real]) = 3 / 2"
  "Max (set [11 / 2, 41 / 10, 16 / 5, 3 / 2 :: real]) = 11 / 2"
  by simp_all

text \<open>The first example of the docstring of \<^verbatim>\<open>normalise\<close>, on a heap that holds \<open>dat\<close> only.\<close>

lemma normalise_example:
  "normalise agree_normalise_spec
     [\<lparr>ncols = 2, rows = [[7 / 2, 11 / 2], [18 / 5, 41 / 10], [41 / 10, 16 / 5], [11 / 2, 3 / 2]]\<rparr>]
     0 [0, 1] [None] [None] [False]
   = (Inr 1,
      [\<lparr>ncols = 2, rows = [[7 / 2, 11 / 2], [18 / 5, 41 / 10], [41 / 10, 16 / 5], [11 / 2, 3 / 2]]\<rparr>,
       \<lparr>ncols = 2, rows = [[0, 1], [1 / 20, 13 / 20], [3 / 10, 17 / 40], [1, 0]]\<rparr>])"
  by (simp add: normalise_def Let_def atleast_1d_of_length_n_def fill_nan_def np_min_axis0_def
        np_max_axis0_def parse_maximise_def agree_normalise_spec_def upt_rec numeral_2_eq_2)

text \<open>
  C4 (as amended). \<^verbatim>\<open>normalise(data, ...)\<close> does not modify the caller's matrix: it copies it
  (\<^verbatim>\<open>np.asfarray(data).copy()\<close>), the native rescaling is applied in place to that private
  copy, and the copy is what is returned. After the call, whether it succeeds or raises,
  the caller's array and every other array that existed before hold what they held; the
  heap has one array more, and a successful call returns the reference of that new array,
  which is not the caller's.
\<close>

theorem normalise_leaves_caller_data:
  assumes "data < length h" and "normalise agree h data tr lo up mx = (r, h')"
  shows "h' ! data = h ! data \<and> take (length h) h' = h \<and> length h' = Suc (length h) \<and>
         (\<forall>c. r = Inr c \<longrightarrow> c = length h \<and> c \<noteq> data)"
proof -
  obtain A where A: "h' = h @ [A]"
    using normalise_heap_shape [of agree h data tr lo up mx] assms(2) by auto
  have "\<forall>c. r = Inr c \<longrightarrow> c = length h"
    using normalise_result_ref [of agree h data tr lo up mx] assms(2) by auto
  then show ?thesis
    using A assms(1) by (auto simp: nth_append)
qed

theorem normalise_leaves_caller_data_witness:
  "(0 :: nat) < length
     [\<lparr>ncols = 2, rows = [[7 / 2, 11 / 2], [18 / 5, 41 / 10], [41 / 10, 16 / 5], [11 / 2, 3 / 2]]\<rparr>] \<and>
   normalise agree_normalise_spec
     [\<lparr>ncols = 2, rows = [[7 / 2, 11 / 2], [18 / 5, 41 / 10], [41 / 10, 16 / 5], [11 / 2, 3 / 2]]\<rparr>]
     0 [0, 1] [None] [None] [False]
   = (Inr 1,
      [\<lparr>ncols = 2, rows = [[7 / 2, 11 / 2], [18 / 5, 41 / 10], [41 / 10, 16 / 5], [11 / 2, 3 / 2]]\<rparr>,
       \<lparr>ncols = 2, rows = [[0, 1], [1 / 20, 13 / 20], [3 / 10, 17 / 40], [1, 0]]\<rparr>]) \<and>
   [\<lparr>ncols = 2, rows = [[7 / 2, 11 / 2], [18 / 5, 41 / 10], [41 / 10, 16 / 5], [11 / 2, 3 / 2]]\<rparr>,
    \<lparr>ncols = 2, rows = [[0, 1], [1 / 20, 13 / 20], [3 / 10, 17 / 40], [1, 0]]\<rparr>] ! 0
   = [\<lparr>ncols = 2, rows = [[7 / 2, 11 / 2], [18 / 5, 41 / 10], [41 / 10, 16 / 5], [11 / 2, 3 / 2]]\<rparr>] ! 0"
  using normalise_leaves_caller_data [OF _ normalise_example] normalise_example by simp

text \<open>
  The claim as stated fails: on the docstring's example the array the caller passed
  (reference 0) is the same after the call, and the rescaled values are in another array
  (reference 1), the one returned.
\<close>

theorem normalise_in_place_counterexample:
  "fst (normalise agree_normalise_spec
     [\<lparr>ncols = 2, rows = [[7 / 2, 11 / 2], [18 / 5, 41 / 10], [41 / 10, 16 / 5], [11 / 2, 3 / 2]]\<rparr>]
     0 [0, 1] [None] [None] [False]) = Inr 1 \<and>
   snd (normalise agree_normalise_spec
     [\<lparr>ncols = 2, rows = [[7 / 2, 11 / 2], [18 / 5, 41 / 10], [41 / 10, 16 / 5], [11 / 2, 3 / 2]]\<rparr>]
     0 [0, 1] [None] [None] [False]) ! 0
     = \<lparr>ncols = 2, rows = [[7 / 2, 11 / 2], [18 / 5, 41 / 10], [41 / 10, 16 / 5], [11 / 2, 3 / 2]]\<rparr> \<and>
   snd (normalise agree_normalise_spec
     [\<lparr>ncols = 2, rows = [[7 / 2, 11 / 2], [18 / 5, 41 / 10], [41 / 10, 16 / 5], [11 / 2, 3 / 2]]\<rparr>]
     0 [0, 1] [None] [None] [False]) ! 1
     = \<lparr>ncols = 2, rows = [[0, 1], [1 / 20, 13 / 20], [3 / 10, 17 / 40], [1, 0]]\<rparr>"
  by (simp add: normalise_example)

subsection \<open>Vorob'ev deviation\<close>

text \<open>
  In a list sorted by a key, the items of one key are the slice that starts after the
  items of smaller keys.
\<close>

lemma sorted_three_parts:
  fixes key :: "'a \<Rightarrow> real"
  shows "sorted (map key xs) \<Longrightarrow>
   xs = filter (\<lambda>x. key x < k) xs @ filter (\<lambda>x. key x = k) xs @ filter (\<lambda>x. k < key x) xs"
proof (induction xs)
  case Nil
  then show ?case by simp
next
  case (Cons a xs)
  then have ge: "\<forall>x \<in> set xs. key a \<le> key x" by auto
  have ih: "xs = filter (\<lambda>x. key x < k) xs @ filter (\<lambda>x. key x = k) xs @ filter (\<lambda>x. k < key x) xs"
    using Cons by simp
  consider "key a < k" | "key a = k" | "k < key a" by force
  then show ?case
  proof cases
    case 1
    then show ?thesis using ih by simp
  next
    case 2
    then have "filter (\<lambda>x. key x < k) xs = []" using ge by (auto simp: filter_empty_conv)
    then show ?thesis using 2 ih by simp
  next
    case 3
    then have "filter (\<lambda>x. key x < k) xs = []" "filter (\<lambda>x. key x = k) xs = []"
      using ge by (auto simp: filter_empty_conv)
    then show ?thesis using 3 ih by simp
  qed
qed

lemma sorted_slice_is_filter:
  fixes key :: "'a \<Rightarrow> real"
  assumes "sorted (map key xs)"
  shows "take (length (filter (\<lambda>x. key x = k) xs)) (drop (length (filter (\<lambda>x. key x < k) xs)) xs)
         = filter (\<lambda>x. key x = k) xs"
proof -
  let ?a = "filter (\<lambda>x. key x < k) xs" and ?b = "filter (\<lambda>x. key x = k) xs"
  and ?c = "filter (\<lambda>x. k < key x) xs"
  have "xs = ?a @ ?b @ ?c" using assms by (rule sorted_three_parts)
  then have "drop (length ?a) xs = ?b @ ?c"
    by (metis append_eq_conv_conj)
  then show ?thesis by simp
qed

text \<open>In a sorted list, a value first occurs after all the smaller values.\<close>

lemma first_index_sorted:
  "sorted ids \<Longrightarrow> k \<in> set ids \<Longrightarrow> first_index ids k = length (filter (\<lambda>v. v < k) ids)"
proof (induction ids)
  case Nil
  then show ?case by simp
next
  case (Cons a ids)
  show ?case
  proof (cases "a = k")
    case True
    then have "filter (\<lambda>v. v < k) ids = []" using Cons.prems by (auto simp: filter_empty_conv)
    then show ?thesis using True by (simp add: first_index_def)
  next
    case False
    then have "k \<in> set ids" using Cons.prems by simp
    then have "a \<le> k" using Cons.prems by auto
    then have "a < k" using False by simp
    then show ?thesis using Cons \<open>k \<in> set ids\<close> False by (simp add: first_index_def)
  qed
qed

lemma count_below_next:
  fixes ids :: "real list"
  shows "\<forall>v \<in> set ids. (v < k') = (v < k \<or> v = k) \<Longrightarrow>
   length (filter (\<lambda>v. v < k') ids)
     = length (filter (\<lambda>v. v < k) ids) + length (filter (\<lambda>v. v = k) ids)"
  by (induction ids) auto

lemma count_all:
  fixes ids :: "real list"
  shows "\<forall>v \<in> set ids. v < k \<or> v = k \<Longrightarrow>
   length ids = length (filter (\<lambda>v. v < k) ids) + length (filter (\<lambda>v. v = k) ids)"
  by (induction ids) auto

text \<open>
  The consecutive pairs of split points, for the distinct values in increasing order, are
  the bounds of the slices of these values.
\<close>

lemma split_points:
  fixes ids :: "real list"
  assumes "ks \<noteq> []" and "sorted ks" and "distinct ks"
    and "\<forall>v \<in> set ids. v \<in> set ks \<or> v < hd ks"
  shows "zip (map (\<lambda>k. length (filter (\<lambda>v. v < k) ids)) ks)
             (tl (map (\<lambda>k. length (filter (\<lambda>v. v < k) ids)) ks) @ [length ids])
         = map (\<lambda>k. (length (filter (\<lambda>v. v < k) ids),
                      length (filter (\<lambda>v. v < k) ids) + length (filter (\<lambda>v. v = k) ids))) ks"
  using assms
proof (induction ks rule: list_nonempty_induct)
  case (single k)
  then have "length ids = length (filter (\<lambda>v. v < k) ids) + length (filter (\<lambda>v. v = k) ids)"
    by (intro count_all) auto
  then show ?case by simp
next
  case (cons k ks)
  obtain k' rest where ks: "ks = k' # rest" using cons.hyps by (cases ks) auto
  have lt: "k < k'" using cons.prems ks by auto
  have above: "\<forall>v \<in> set ks. k' \<le> v" using cons.prems ks by auto
  have cover: "\<forall>v \<in> set ids. v \<in> set ks \<or> v < hd ks"
    using cons.prems(3) lt ks by fastforce
  have "\<forall>v \<in> set ids. (v < k') = (v < k \<or> v = k)"
  proof
    fix v assume "v \<in> set ids"
    then have "v = k \<or> v \<in> set ks \<or> v < k" using cons.prems(3) by auto
    then show "(v < k') = (v < k \<or> v = k)" using lt above by fastforce
  qed
  then have step: "length (filter (\<lambda>v. v < k') ids)
     = length (filter (\<lambda>v. v < k) ids) + length (filter (\<lambda>v. v = k) ids)"
    by (rule count_below_next)
  have ih: "zip (map (\<lambda>k. length (filter (\<lambda>v. v < k) ids)) ks)
             (tl (map (\<lambda>k. length (filter (\<lambda>v. v < k) ids)) ks) @ [length ids])
         = map (\<lambda>k. (length (filter (\<lambda>v. v < k) ids),
                      length (filter (\<lambda>v. v < k) ids) + length (filter (\<lambda>v. v = k) ids))) ks"
    using cons.IH cons.prems cover by simp
  show ?case using ih step ks by simp
qed


text \<open>
  When the set column is in non-decreasing order, \<^verbatim>\<open>x_split\<close> is the list of the runs, in
  increasing order of their identifiers.
\<close>

lemma x_split_runs:
  assumes "rows x \<noteq> []" and "sorted (last_col x)"
  shows "np_vsplit (drop_last_col x) (tl (np_unique_index (last_col x)))
         = map (run_of x) (np_unique (last_col x))"
proof -
  define rs where "rs = rows x"
  define ids where "ids = last_col x"
  define ks where "ks = np_unique ids"
  define lt where "lt = (\<lambda>k. length (filter (\<lambda>v. v < k) ids))"
  define cnt where "cnt = (\<lambda>k. length (filter (\<lambda>v. v = k) ids))"
  have ids: "ids = map last rs" by (simp add: ids_def rs_def last_col_def)
  have srt: "sorted ids" using assms(2) by (simp add: ids_def)
  have ks_set: "set ks = set ids" and ks_sorted: "sorted ks" and ks_distinct: "distinct ks"
    by (simp_all add: ks_def np_unique_def)
  have "ids \<noteq> []" using assms(1) by (simp add: ids rs_def)
  then have ks_ne: "ks \<noteq> []" using ks_set by auto
  have idx: "np_unique_index ids = map lt ks"
    unfolding np_unique_index_def ks_def [symmetric] lt_def
    using first_index_sorted [OF srt] ks_set by (intro map_cong) auto
  have hd_min: "\<forall>v \<in> set ids. hd ks \<le> v"
  proof
    fix v assume "v \<in> set ids"
    then have "v \<in> set ks" using ks_set by simp
    then show "hd ks \<le> v" using ks_sorted by (cases ks) auto
  qed
  then have "filter (\<lambda>v. v < hd ks) ids = []" by (auto simp: filter_empty_conv)
  then have lt_hd: "lt (hd ks) = 0" by (simp add: lt_def)
  have zero: "0 # tl (map lt ks) = map lt ks"
    using ks_ne lt_hd by (cases ks) auto
  have pts: "zip (map lt ks) (tl (map lt ks) @ [length ids]) = map (\<lambda>k. (lt k, lt k + cnt k)) ks"
    unfolding lt_def cnt_def
    using ks_ne ks_sorted ks_distinct ks_set by (intro split_points) auto
  have piece: "take (cnt k) (drop (lt k) (map butlast rs)) = map butlast (filter (\<lambda>r. last r = k) rs)"
    for k
  proof -
    have "sorted (map last rs)" using srt ids by simp
    then have "take (length (filter (\<lambda>r. last r = k) rs))
                 (drop (length (filter (\<lambda>r. last r < k) rs)) rs) = filter (\<lambda>r. last r = k) rs"
      by (rule sorted_slice_is_filter)
    then show ?thesis
      by (simp add: cnt_def lt_def ids take_map drop_map comp_def)
  qed
  have len: "length rs = length ids" by (simp add: ids)
  have "np_vsplit (drop_last_col x) (tl (np_unique_index ids))
        = map (\<lambda>(st, en). \<lparr>ncols = ncols x - 1, rows = take (en - st) (drop st (map butlast rs))\<rparr>)
              (zip (0 # tl (map lt ks)) (tl (map lt ks) @ [length rs]))"
    by (simp add: np_vsplit_def drop_last_col_def idx rs_def)
  also have "\<dots>
        = map (\<lambda>(st, en). \<lparr>ncols = ncols x - 1, rows = take (en - st) (drop st (map butlast rs))\<rparr>)
              (zip (map lt ks) (tl (map lt ks) @ [length ids]))"
    by (simp only: zero len)
  also have "\<dots> = map (\<lambda>k. \<lparr>ncols = ncols x - 1, rows = take (cnt k) (drop (lt k) (map butlast rs))\<rparr>) ks"
    by (simp add: pts o_def)
  also have "\<dots> = map (run_of x) ks"
    using piece by (simp add: run_of_def drop_last_col_def rows_of_set_def rs_def)
  finally show ?thesis by (simp add: ids_def ks_def)
qed

lemma collect_Inr: "collect (map (\<lambda>x. Inr (h x)) xs) = Inr (map h xs)"
  by (induction xs) auto

lemma hypervolume_full_reference:
  "length reference = ncols A \<Longrightarrow> ncols A \<noteq> 1 \<Longrightarrow>
   hypervolume fpli_hv A reference = Inr (fpli_hv (rows A) (ncols A) (length (rows A)) reference)"
  by (simp add: hypervolume_def atleast_1d_of_length_n_def Let_def)

text \<open>
  C8 (as amended). For every dataset \<open>x\<close> of at least three columns and one row whose
  set-identifier column is in non-decreasing order (every run a contiguous block, the
  blocks in increasing order of identifier), every reference point with one coordinate per
  objective and every explicitly supplied \<open>VE\<close> with one column per objective,
  \<^verbatim>\<open>vorobDev\<close> returns twice the mean over the runs of the hypervolume of the run stacked with
  \<open>VE\<close>, minus the mean over the runs of the hypervolume of the run, minus the hypervolume
  of \<open>VE\<close>; the means are unweighted means over the distinct sets of \<open>x\<close>.
\<close>

theorem vorobDev_formula:
  assumes "3 \<le> ncols x" and "rows x \<noteq> []" and "sorted (last_col x)"
    and "length reference = ncols x - 1" and "ncols ve = ncols x - 1"
  shows "vorobDev fpli_hv ecm x reference (Some ve)
         = Some (Inr (vorobDev_spec fpli_hv x reference ve))"
proof -
  let ?nobj = "ncols x - 1"
  let ?hv = "\<lambda>pts. fpli_hv pts ?nobj (length pts) reference"
  have n1: "?nobj \<noteq> 1" using assms(1) by simp
  have split: "np_vsplit (drop_last_col x) (tl (np_unique_index (last_col x)))
         = map (run_of x) (np_unique (last_col x))"
    using assms(2,3) by (rule x_split_runs)
  have run_cols: "ncols (run_of x k) = ?nobj" for k
    by (simp add: run_of_def drop_last_col_def rows_of_set_def)
  have H2: "hypervolume fpli_hv ve reference = Inr (?hv (rows ve))"
    using assms(4,5) n1 by (simp add: hypervolume_full_reference)
  have h1: "(\<lambda>k. hypervolume fpli_hv (run_of x k) reference) = (\<lambda>k. Inr (?hv (rows (run_of x k))))"
    using assms(4) n1 by (intro ext) (simp add: hypervolume_full_reference run_cols)
  have vd: "(\<lambda>k. hypervolume_stacked fpli_hv (run_of x k) ve reference)
            = (\<lambda>k. Inr (?hv (rows (run_of x k) @ rows ve)))"
    using assms(4,5) n1
    by (intro ext) (simp add: hypervolume_stacked_def row_stack_def hypervolume_full_reference run_cols)
  have "vorobDev_VE fpli_hv x reference ve = Inr (vorobDev_spec fpli_hv x reference ve)"
    using assms(1)
    by (simp add: vorobDev_VE_def vorobDev_spec_def Let_def H2 split o_def h1 vd collect_Inr)
  then show ?thesis by (simp add: vorobDev_def)
qed


lemma hv_examples_dev:
  "fpli_hv_spec [] 2 n [10, 10] = Fin 0"
  "fpli_hv_spec [[1, 1]] 2 n [10, 10] = Fin 81"
  "fpli_hv_spec [[3, 3]] 2 n [10, 10] = Fin 49"
  "fpli_hv_spec [[5, 5], [3, 3]] 2 n [10, 10] = Fin 49"
  "fpli_hv_spec [[1, 1], [3, 3]] 2 n [10, 10] = Fin 81"
  "fpli_hv_spec [[1, 1], [5, 5]] 2 n [10, 10] = Fin 81"
  "fpli_hv_spec [[1, 1], [5, 5], [3, 3]] 2 n [10, 10] = Fin 81"
  by (simp_all add: fpli_hv_spec_def to_double_small box_volume_def)

lemma np_unique_dev: "np_unique [1, 2] = [1, 2]" "np_unique [2, 1] = [1, 2]"
  by (simp_all add: np_unique_def)

lemma vorobDev_spec_example:
  "vorobDev_spec fpli_hv_spec \<lparr>ncols = 3, rows = [[5, 5, 1], [1, 1, 2]]\<rparr> [10, 10]
     \<lparr>ncols = 2, rows = [[3, 3]]\<rparr> = Fin 28"
  by (simp add: vorobDev_spec_def Let_def last_col_def np_unique_dev run_of_def rows_of_set_def
        drop_last_col_def hv_examples hv_examples_dev np_mean_def dsub_def)

theorem vorobDev_formula_witness:
  "vorobDev fpli_hv_spec eaf_compute_matrix_spec \<lparr>ncols = 3, rows = [[5, 5, 1], [1, 1, 2]]\<rparr>
     [10, 10] (Some \<lparr>ncols = 2, rows = [[3, 3]]\<rparr>) = Some (Inr (Fin 28))"
  using vorobDev_formula [of "\<lparr>ncols = 3, rows = [[5, 5, 1], [1, 1, 2]]\<rparr>" "[10, 10]"
          "\<lparr>ncols = 2, rows = [[3, 3]]\<rparr>" fpli_hv_spec eaf_compute_matrix_spec]
  by (simp add: last_col_def vorobDev_spec_example)

text \<open>
  The claim as stated, for every dataset, fails when the set column is not in
  non-decreasing order: \<^verbatim>\<open>np.unique\<close> returns the first occurrences in the order of the
  sorted identifiers, here \<open>[1, 0]\<close>, so \<^verbatim>\<open>np.vsplit\<close> at \<open>[0]\<close> yields an empty piece and the
  whole dataset instead of the two runs. The code returns \<open>81 / 2\<close>, the formula gives \<open>28\<close>.
\<close>

theorem vorobDev_unsorted_counterexample:
  "vorobDev fpli_hv_spec eaf_compute_matrix_spec \<lparr>ncols = 3, rows = [[1, 1, 2], [5, 5, 1]]\<rparr>
     [10, 10] (Some \<lparr>ncols = 2, rows = [[3, 3]]\<rparr>) = Some (Inr (Fin (81 / 2))) \<and>
   vorobDev_spec fpli_hv_spec \<lparr>ncols = 3, rows = [[1, 1, 2], [5, 5, 1]]\<rparr> [10, 10]
     \<lparr>ncols = 2, rows = [[3, 3]]\<rparr> = Fin 28"
  by (simp add: vorobDev_def vorobDev_VE_def vorobDev_spec_def Let_def last_col_def np_unique_dev
        np_unique_index_def first_index_def np_vsplit_def hypervolume_stacked_def row_stack_def
        run_of_def rows_of_set_def drop_last_col_def hypervolume_def atleast_1d_of_length_n_def
        hv_examples hv_examples_dev np_mean_def dsub_def)

subsection \<open>Multiplicative epsilon\<close>

text \<open>
  The Python layer of \<^verbatim>\<open>epsilon_mult\<close> checks the shapes only and hands everything else to
  the native routine, whose outcome is the outcome of the call.
\<close>

lemma epsilon_mult_shape_checks:
  "epsilon_mult f data ref mx =
     (if ncols data \<noteq> ncols ref \<or> (length mx \<noteq> 1 \<and> length mx \<noteq> ncols data)
      then Inl ValueError
      else Inr (f (rows data) (ncols data) (length (rows data)) (rows ref) (length (rows ref))
                  (if length mx = 1 then replicate (ncols data) (hd mx) else mx)))"
  by (simp add: epsilon_mult_def unary_refset_common_eq)

lemma epsilon_mult_spec_nonpositive:
  "\<exists>p \<in> set (data @ ref). \<exists>v \<in> set p. v \<le> 0 \<Longrightarrow>
   epsilon_mult_spec data nobj npoints ref ref_size mx = Fatal"
  by (simp add: epsilon_mult_spec_def)

text \<open>The example of the docstring, where every coordinate is positive.\<close>

lemma epsilon_mult_docstring_example:
  "epsilon_mult epsilon_mult_spec
     \<lparr>ncols = 2, rows = [[7 / 2, 11 / 2], [18 / 5, 41 / 10], [41 / 10, 16 / 5], [11 / 2, 3 / 2]]\<rparr>
     \<lparr>ncols = 2, rows = [[1, 6], [2, 5], [3, 4], [4, 3], [5, 2], [6, 1]]\<rparr> [False]
   = Inr (Returned (Fin (7 / 2)))"
  by (simp add: epsilon_mult_shape_checks epsilon_mult_spec_def epsilon_ratio_def upt_rec
        numeral_2_eq_2)

text \<open>
  C5. For every data matrix and reference set of matching column count, \<^verbatim>\<open>epsilon_mult\<close>
  gives no numeric result whenever a coordinate of \<open>data\<close> or \<open>ref\<close> is not strictly positive:
  the call ends with an error before the indicator is computed. The error is the fatal
  domain error of the native routine (or, when \<open>maximise\<close> is ill-shaped, the \<^verbatim>\<open>ValueError\<close>
  of the shape checks, which come first).
\<close>

theorem epsilon_mult_rejects_nonpositive:
  assumes "ncols data = ncols ref"
    and "\<exists>p \<in> set (rows data @ rows ref). \<exists>v \<in> set p. v \<le> 0"
  shows "epsilon_mult epsilon_mult_spec data ref maximise =
           (if length maximise = 1 \<or> length maximise = ncols data then Inr Fatal
            else Inl ValueError) \<and>
         (\<forall>v. epsilon_mult epsilon_mult_spec data ref maximise \<noteq> Inr (Returned v))"
  using assms epsilon_mult_spec_nonpositive [of "rows data" "rows ref"]
  by (auto simp: epsilon_mult_shape_checks)

theorem epsilon_mult_rejects_nonpositive_witness:
  "epsilon_mult epsilon_mult_spec \<lparr>ncols = 2, rows = [[-1, 1]]\<rparr> \<lparr>ncols = 2, rows = [[1, 1]]\<rparr>
     [False] = Inr Fatal \<and>
   epsilon_mult epsilon_mult_spec \<lparr>ncols = 2, rows = [[1, 1]]\<rparr> \<lparr>ncols = 2, rows = [[3, 0]]\<rparr>
     [False, True] = Inr Fatal"
  using epsilon_mult_rejects_nonpositive [of "\<lparr>ncols = 2, rows = [[-1, 1]]\<rparr>"
          "\<lparr>ncols = 2, rows = [[1, 1]]\<rparr>" "[False]"]
        epsilon_mult_rejects_nonpositive [of "\<lparr>ncols = 2, rows = [[1, 1]]\<rparr>"
          "\<lparr>ncols = 2, rows = [[3, 0]]\<rparr>" "[False, True]"]
  by simp

subsection \<open>The doubles of the bisection\<close>

text \<open>
  Rounding to a multiple of \<open>2\<^sup>s\<close>: the result is one of the two neighbours, at most half
  a step away, and rounding is monotone.
\<close>

lemma round_to_cases:
  "round_to s k = (k div 2 ^ s) * 2 ^ s \<or> round_to s k = (k div 2 ^ s + 1) * 2 ^ s"
  by (simp add: round_to_def Let_def)

lemma round_to_dvd_result: "2 ^ s dvd round_to s k"
  using round_to_cases [where s = s and k = k] by auto

lemma round_to_of_multiple: "2 ^ s dvd k \<Longrightarrow> round_to s k = k"
  by (auto simp: round_to_def Let_def)

lemma round_to_lower: "(k div 2 ^ s) * 2 ^ s \<le> round_to s k"
  using round_to_cases [where s = s and k = k] by auto

lemma round_to_upper: "round_to s k \<le> (k div 2 ^ s + 1) * 2 ^ s"
  using round_to_cases [where s = s and k = k] by auto

lemma round_to_mono:
  assumes "k \<le> k'"
  shows "round_to s k \<le> round_to s k'"
proof -
  let ?P = "(2::nat) ^ s"
  have q: "k div ?P \<le> k' div ?P" using assms by (rule div_le_mono)
  show ?thesis
  proof (cases "k div ?P = k' div ?P")
    case True
    have "k mod ?P \<le> k' mod ?P"
      using assms True by (metis add_le_cancel_left mult_div_mod_eq)
    then show ?thesis
      using True by (auto simp: round_to_def Let_def)
  next
    case False
    then have "k div ?P + 1 \<le> k' div ?P" using q by simp
    then have "(k div ?P + 1) * ?P \<le> (k' div ?P) * ?P" by (rule mult_le_mono1)
    then show ?thesis
      using round_to_upper [where s = s and k = k] round_to_lower [where s = s and k = k'] by linarith
  qed
qed

lemma round_to_error:
  "round_to (Suc t) s \<le> s + 2 ^ t \<and> s \<le> round_to (Suc t) s + 2 ^ t"
proof -
  define G where "G = (2::nat) ^ t"
  define q where "q = s div (2 * G)"
  define r where "r = s mod (2 * G)"
  have G: "0 < G" by (simp add: G_def)
  have s: "s = q * (2 * G) + r" by (simp only: q_def r_def div_mult_mod_eq)
  have r: "r < 2 * G" using G by (simp add: r_def)
  have rt: "round_to (Suc t) s =
      (if 2 * r < 2 * G \<or> (2 * r = 2 * G \<and> even q) then q * (2 * G) else (q + 1) * (2 * G))"
    by (simp add: round_to_def Let_def q_def r_def G_def)
  have up: "(q + 1) * (2 * G) = q * (2 * G) + 2 * G" by (simp add: algebra_simps)
  show ?thesis
  proof (cases "2 * r < 2 * G \<or> (2 * r = 2 * G \<and> even q)")
    case True
    then have "round_to (Suc t) s = q * (2 * G)" "r \<le> G" using rt by auto
    then show ?thesis using s unfolding G_def [symmetric] by linarith
  next
    case False
    then have "round_to (Suc t) s = q * (2 * G) + 2 * G" "G \<le> r" using rt up by auto
    then show ?thesis using s r unfolding G_def [symmetric] by linarith
  qed
qed

text \<open>Rounding to 53 bits is monotone, leaves a double as it is, and gives a double.\<close>

lemma round53_zero: "round53 0 = 0"
  by (simp add: round53_def round_to_def)

lemma round53_mono:
  assumes "k \<le> k'"
  shows "round53 k \<le> round53 k'"
proof (cases "k = 0")
  case True
  then show ?thesis by (simp add: round53_zero)
next
  case False
  then have pos: "0 < k" "0 < k'" using assms by simp_all
  let ?L = "floorlog 2 k" and ?L' = "floorlog 2 k'"
  have LL: "?L \<le> ?L'" using assms by (rule floorlog_mono)
  show ?thesis
  proof (cases "?L - 53 = ?L' - 53")
    case True
    then show ?thesis using round_to_mono [OF assms] by (simp add: round53_def)
  next
    case False
    then have lt: "?L < ?L'" and big: "54 \<le> ?L'" using LL by linarith+
    have "k < 2 ^ ?L" using floorlog_bounds [of k 2] pos by simp
    then have "round_to (?L - 53) k \<le> round_to (?L - 53) (2 ^ ?L)"
      by (intro round_to_mono) simp
    also have "\<dots> = 2 ^ ?L"
      by (intro round_to_of_multiple le_imp_power_dvd) simp
    also have "\<dots> \<le> (2::nat) ^ (?L' - 1)"
      using lt by (intro power_increasing) simp_all
    also have "\<dots> = round_to (?L' - 53) (2 ^ (?L' - 1))"
      using big by (intro round_to_of_multiple [symmetric] le_imp_power_dvd) simp
    also have "\<dots> \<le> round_to (?L' - 53) k'"
      using floorlog_bounds [of k' 2] pos by (intro round_to_mono) simp
    finally show ?thesis by (simp add: round53_def)
  qed
qed

lemma is_dbl_zero: "is_dbl 0"
  by (simp add: is_dbl_def)

lemma round53_of_dbl: "is_dbl k \<Longrightarrow> round53 k = k"
  by (simp add: is_dbl_def round53_def round_to_of_multiple)

lemma is_dblI:
  assumes "2 ^ s dvd x" and "floorlog 2 x \<le> s + 53"
  shows "is_dbl x"
proof -
  have "floorlog 2 x - 53 \<le> s" using assms(2) by simp
  then have "(2::nat) ^ (floorlog 2 x - 53) dvd 2 ^ s" by (rule le_imp_power_dvd)
  then show ?thesis using assms(1) unfolding is_dbl_def by (rule dvd_trans)
qed

lemma is_dbl_dvd:
  assumes "is_dbl x" and "t + 53 \<le> floorlog 2 x"
  shows "2 ^ t dvd x"
proof -
  have "t \<le> floorlog 2 x - 53" using assms(2) by simp
  then have "(2::nat) ^ t dvd 2 ^ (floorlog 2 x - 53)" by (rule le_imp_power_dvd)
  then show ?thesis using assms(1) unfolding is_dbl_def by (rule dvd_trans)
qed

lemma is_dbl_power: "is_dbl (2 ^ n)"
proof -
  have "floorlog 2 ((2::nat) ^ n) = n + 1"
    using floorlog_power [of 1 2 n] by (simp add: compute_floorlog)
  then show ?thesis by (simp add: is_dbl_def le_imp_power_dvd)
qed

lemma is_dbl_double:
  assumes "is_dbl k"
  shows "is_dbl (2 * k)"
proof (cases "k = 0")
  case True
  then show ?thesis by (simp add: is_dbl_zero)
next
  case False
  then have "floorlog 2 (k * 2 ^ 1) = floorlog 2 k + 1" by (intro floorlog_power) simp_all
  then have fl: "floorlog 2 (2 * k) \<le> (floorlog 2 k - 53 + 1) + 53" by (simp add: mult.commute)
  have "2 ^ (floorlog 2 k - 53 + 1) dvd 2 * k"
    using assms by (simp add: is_dbl_def)
  then show ?thesis using fl by (rule is_dblI)
qed

lemma is_dbl_round53: "is_dbl (round53 k)"
proof (cases "k = 0")
  case True
  then show ?thesis by (simp add: round53_zero is_dbl_zero)
next
  case False
  let ?L = "floorlog 2 k"
  let ?x = "round_to (?L - 53) k"
  have "k < 2 ^ ?L" using floorlog_bounds [of k 2] False by simp
  then have "?x \<le> round_to (?L - 53) (2 ^ ?L)" by (intro round_to_mono) simp
  also have "\<dots> = 2 ^ ?L" by (intro round_to_of_multiple le_imp_power_dvd) simp
  finally have le: "?x \<le> 2 ^ ?L" .
  show ?thesis
  proof (cases "?x = 2 ^ ?L")
    case True
    then show ?thesis by (simp add: round53_def is_dbl_power)
  next
    case False
    then have "?x < 2 ^ ?L" using le by simp
    then have "floorlog 2 ?x \<le> ?L" by (intro floorlog_leI) simp_all
    then have "floorlog 2 ?x \<le> (?L - 53) + 53" by simp
    with round_to_dvd_result [where s = "?L - 53" and k = k] show ?thesis
      unfolding round53_def by (rule is_dblI)
  qed
qed

lemma is_dbl_small: "x \<le> 2 ^ 52 \<Longrightarrow> is_dbl x"
proof -
  assume "x \<le> 2 ^ 52"
  then have "x < 2 ^ 53" by (simp add: order_le_less_trans)
  then have "floorlog 2 x \<le> 53" by (intro floorlog_leI) simp_all
  then show ?thesis by (simp add: is_dbl_def)
qed

lemma floorlog_100: "floorlog 2 100 = 7"
  by (simp add: compute_floorlog)

lemma is_dbl_100: "is_dbl dbl_100"
proof -
  have "floorlog 2 (100 * 2 ^ 1074) = floorlog 2 100 + 1074" by (intro floorlog_power) simp_all
  then show ?thesis by (simp add: is_dbl_def dbl_100_def floorlog_100 le_imp_power_dvd)
qed

text \<open>Halving is exact on an even number and rounds an odd one to a neighbour.\<close>

lemma dbl_half_even: "even x \<Longrightarrow> dbl_half x = x div 2"
  by (simp add: dbl_half_def round_to_of_multiple)

lemma dbl_half_odd: "odd x \<Longrightarrow> dbl_half x = x div 2 \<or> dbl_half x = x div 2 + 1"
  using round_to_cases [where s = 1 and k = x] by (auto simp: dbl_half_def)

lemma dbl_half_between:
  assumes "2 * lo \<le> x" and "x \<le> 2 * hi"
  shows "lo \<le> dbl_half x \<and> dbl_half x \<le> hi"
proof (cases "even x")
  case True
  then show ?thesis using assms by (auto simp: dbl_half_even)
next
  case False
  then have "2 * lo < x" "x < 2 * hi" using assms by (auto simp: le_less)
  then have "lo \<le> x div 2" "x div 2 + 1 \<le> hi" by linarith+
  then show ?thesis using dbl_half_odd [OF False] by auto
qed

lemma is_dbl_half:
  assumes "is_dbl x"
  shows "is_dbl (dbl_half x)"
proof (cases "even x")
  case True
  show ?thesis
  proof (cases "floorlog 2 x \<le> 53")
    case True
    then have "x < 2 ^ 53" by (rule floorlog_leD) simp
    then have "x div 2 \<le> 2 ^ 52" by simp
    then show ?thesis using \<open>even x\<close> by (simp add: dbl_half_even is_dbl_small)
  next
    case False
    then obtain s where s: "floorlog 2 x - 53 = Suc s" by (cases "floorlog 2 x - 53") auto
    have xpos: "0 < x" using False by (cases "x = 0") (simp_all add: floorlog_def)
    have "2 ^ Suc s dvd x" using assms s by (simp add: is_dbl_def)
    then have d: "2 ^ s dvd x div 2" by (auto elim: dvdE)
    have "floorlog 2 x = floorlog 2 (x div 2) + 1"
      using xpos compute_floorlog [of 2 x] by simp
    then have "floorlog 2 (x div 2) \<le> s + 53" using s by simp
    with d have "is_dbl (x div 2)" by (rule is_dblI)
    then show ?thesis using \<open>even x\<close> by (simp add: dbl_half_even)
  qed
next
  case False
  then have "\<not> 2 dvd x" by simp
  then have "floorlog 2 x - 53 = 0"
    using assms unfolding is_dbl_def
    by (cases "floorlog 2 x - 53") (auto dest: dvd_mult_left)
  then have "x < 2 ^ 53" by (intro floorlog_leD) simp_all
  then have "x div 2 + 1 \<le> 2 ^ 52" by simp
  then have "dbl_half x \<le> 2 ^ 52" using dbl_half_odd [OF False] by auto
  then show ?thesis by (rule is_dbl_small)
qed

text \<open>The midpoint of two doubles is a double between them.\<close>

lemma dbl_mid_between:
  assumes "is_dbl a" and "is_dbl b" and "a \<le> b"
  shows "a \<le> dbl_mid a b \<and> dbl_mid a b \<le> b \<and> is_dbl (dbl_mid a b)"
proof -
  have "round53 (2 * a) \<le> round53 (a + b)" using assms(3) by (intro round53_mono) simp
  then have lo: "2 * a \<le> dbl_add a b"
    using is_dbl_double [OF assms(1)] by (simp add: round53_of_dbl dbl_add_def)
  have "round53 (a + b) \<le> round53 (2 * b)" using assms(3) by (intro round53_mono) simp
  then have hi: "dbl_add a b \<le> 2 * b"
    using is_dbl_double [OF assms(2)] by (simp add: round53_of_dbl dbl_add_def)
  have "is_dbl (dbl_add a b)" by (simp add: dbl_add_def is_dbl_round53)
  then have "is_dbl (dbl_mid a b)" unfolding dbl_mid_def by (rule is_dbl_half)
  then show ?thesis using dbl_half_between [OF lo hi] by (simp add: dbl_mid_def)
qed

lemma dbl_mid_same: "is_dbl a \<Longrightarrow> dbl_mid a a = a"
  using dbl_mid_between [of a a] by simp

lemma multiples_apart:
  fixes x y g :: nat
  assumes "g dvd x" and "g dvd y" and "x < y"
  shows "x + g \<le> y"
proof -
  obtain i j where "x = g * i" "y = g * j" using assms by (auto elim!: dvdE)
  moreover have "i < j" using assms(3) calculation by (cases "g = 0") auto
  then have "i + 1 \<le> j" by simp
  then have "g * (i + 1) \<le> g * j" by (rule mult_le_mono2)
  ultimately show ?thesis by (simp add: algebra_simps)
qed

text \<open>
  A midpoint strictly between the bounds cuts the interval to at most five sixths: the
  rounding error of the midpoint is at most a third of the width.
\<close>

lemma dbl_mid_contracts:
  assumes da: "is_dbl a" and db: "is_dbl b"
    and ac: "a < dbl_mid a b" and cb: "dbl_mid a b < b"
  shows "6 * (dbl_mid a b - a) \<le> 5 * (b - a) \<and> 6 * (b - dbl_mid a b) \<le> 5 * (b - a)"
proof -
  define s where "s = a + b"
  define c where "c = dbl_mid a b"
  have c_def': "c = dbl_half (round53 s)" by (simp add: c_def s_def dbl_mid_def dbl_add_def)
  have acb: "a < c" "c < b" using ac cb by (simp_all add: c_def)
  have near: "\<exists>g. 2 * c \<le> s + g \<and> s \<le> 2 * c + g \<and> 3 * g \<le> 2 * (b - a)"
  proof (cases "floorlog 2 s - 53")
    case 0
    then have "round53 s = s" by (simp add: round53_def round_to_of_multiple)
    then have c: "c = dbl_half s" by (simp add: c_def')
    have "2 * c \<le> s + 1 \<and> s \<le> 2 * c + 1"
    proof (cases "even s")
      case True
      then show ?thesis using c by (auto simp: dbl_half_even)
    next
      case False
      then have "s = 2 * (s div 2) + 1" by presburger
      then show ?thesis using c dbl_half_odd [OF False] by auto
    qed
    moreover have "3 * 1 \<le> 2 * (b - a)" using acb by simp
    ultimately show ?thesis by blast
  next
    case (Suc t)
    define g where "g = (2::nat) ^ t"
    have fl: "floorlog 2 s = t + 54" using Suc by simp
    have r: "round53 s = round_to (Suc t) s" using Suc by (simp add: round53_def)
    have err: "round53 s \<le> s + g" "s \<le> round53 s + g"
      using round_to_error [of t s] by (simp_all add: r g_def)
    have dv: "2 * g dvd round53 s"
      using round_to_dvd_result [where s = "Suc t" and k = s] by (simp add: r g_def)
    then have "even (round53 s)" by (auto elim: dvdE)
    then have c2: "2 * c = round53 s" by (simp add: c_def' dbl_half_even)
    have "2 * g dvd 2 * c" using dv c2 by simp
    then have gc: "g dvd c" by simp
    have bpos: "0 < b" using acb by simp
    have "floorlog 2 s \<le> floorlog 2 (b * 2 ^ 1)"
      using acb by (intro floorlog_mono) (simp add: s_def)
    also have "\<dots> = floorlog 2 b + 1" using bpos by (intro floorlog_power) simp_all
    finally have flb: "t + 53 \<le> floorlog 2 b" using fl by simp
    have gb: "g dvd b" unfolding g_def using db flb by (rule is_dbl_dvd)
    have cgb: "c + g \<le> b" using gc gb acb(2) by (rule multiples_apart)
    have "3 * g \<le> 2 * (b - a)"
    proof (cases t)
      case 0
      then show ?thesis using acb by (simp add: g_def)
    next
      case (Suc t')
      define h where "h = (2::nat) ^ t'"
      have gh: "g = 2 * h" by (simp add: g_def h_def Suc)
      show ?thesis
      proof (cases "t' + 53 \<le> floorlog 2 a")
        case True
        have "h dvd a" unfolding h_def using da True by (rule is_dbl_dvd)
        moreover have "h dvd c" using gc gh by (auto elim: dvd_mult_right dvdE)
        ultimately have "a + h \<le> c" using acb(1) by (rule multiples_apart)
        then show ?thesis using cgb gh by simp
      next
        case False
        then have "floorlog 2 a \<le> t' + 52" by simp
        then have a: "a < 2 ^ (t' + 52)" by (rule floorlog_leD) simp
        have "(2::nat) ^ (t' + 53) \<le> 2 ^ (floorlog 2 b - 1)"
          using flb Suc by (intro power_increasing) simp_all
        also have "\<dots> \<le> b" using floorlog_bounds [of b 2] bpos by simp
        finally have b: "2 * 2 ^ (t' + 52) \<le> b" by (simp add: power_add)
        have "3 * h \<le> h * 2 ^ 52" by simp
        also have "\<dots> = 2 ^ (t' + 52)" by (simp add: h_def power_add)
        finally have "3 * h \<le> 2 ^ (t' + 52)" .
        then show ?thesis using a b gh by simp
      qed
    qed
    then show ?thesis using err c2 by (intro exI [of _ g]) simp
  qed
  then obtain g where g: "2 * c \<le> s + g" "s \<le> 2 * c + g" "3 * g \<le> 2 * (b - a)" by blast
  have "6 * (c - a) \<le> 5 * (b - a)" using g acb unfolding s_def by linarith
  moreover have "6 * (b - c) \<le> 5 * (b - a)" using g acb unfolding s_def by linarith
  ultimately show ?thesis by (simp add: c_def)
qed

text \<open>
  Where no rounding happens the midpoint is the exact one: the passes of a small example.
\<close>

lemma dbl_value_halves: "dbl_value (dbl_of_halves m) = real m / 2"
proof -
  have "(2::real) ^ 1074 = 2 * 2 ^ 1073" by (simp only: power_Suc [symmetric]) simp
  then show ?thesis by (simp add: dbl_value_def dbl_of_halves_def)
qed

lemma dbl_100_halves: "dbl_100 = dbl_of_halves 200"
proof -
  have "(2::nat) ^ 1074 = 2 * 2 ^ 1073" by (simp only: power_Suc [symmetric]) simp
  then show ?thesis by (simp add: dbl_100_def dbl_of_halves_def)
qed

lemma dbl_mid_exact:
  assumes "even (i + j)" and "i + j < 2 ^ 53"
  shows "dbl_mid (i * 2 ^ e) (j * 2 ^ e) = ((i + j) div 2) * 2 ^ e"
proof (cases "i + j = 0")
  case True
  then show ?thesis by (simp add: dbl_mid_def dbl_add_def round53_zero dbl_half_even)
next
  case False
  have sum: "i * 2 ^ e + j * 2 ^ e = (i + j) * 2 ^ e" by (simp add: algebra_simps)
  have "floorlog 2 ((i + j) * 2 ^ e) = floorlog 2 (i + j) + e"
    using False by (intro floorlog_power) simp_all
  moreover have "floorlog 2 (i + j) \<le> 53" using assms(2) by (intro floorlog_leI) simp_all
  ultimately have "floorlog 2 ((i + j) * 2 ^ e) - 53 \<le> e" by simp
  then have "2 ^ (floorlog 2 ((i + j) * 2 ^ e) - 53) dvd (i + j) * 2 ^ e"
    by (intro dvd_mult le_imp_power_dvd)
  then have r: "round53 ((i + j) * 2 ^ e) = (i + j) * 2 ^ e"
    by (simp add: round53_def round_to_of_multiple)
  obtain m where m: "i + j = 2 * m" using assms(1) by (elim evenE)
  show ?thesis
    unfolding dbl_mid_def dbl_add_def sum r using m by (simp add: dbl_half_even)
qed

lemma dbl_mid_halves:
  "even (i + j) \<Longrightarrow> i + j < 2 ^ 53 \<Longrightarrow>
   dbl_mid (dbl_of_halves i) (dbl_of_halves j) = dbl_of_halves ((i + j) div 2)"
  unfolding dbl_of_halves_def by (rule dbl_mid_exact)

lemma dbl_mid_examples:
  "dbl_mid 0 (dbl_of_halves 200) = dbl_of_halves 100"
  "dbl_mid (dbl_of_halves 100) (dbl_of_halves 200) = dbl_of_halves 150"
  "dbl_mid (dbl_of_halves 100) (dbl_of_halves 150) = dbl_of_halves 125"
  using dbl_mid_halves [of 0 200] dbl_mid_halves [of 100 200] dbl_mid_halves [of 100 150]
  by (simp_all add: dbl_of_halves_def)

lemma dbl_value_range: "x \<le> dbl_100 \<Longrightarrow> 0 \<le> dbl_value x \<and> dbl_value x \<le> 100"
proof -
  assume "x \<le> dbl_100"
  then have "real x \<le> real (100 * 2 ^ 1074)" unfolding dbl_100_def by (rule of_nat_mono)
  then have "real x \<le> 100 * 2 ^ 1074" by simp
  then have "real x / 2 ^ 1074 \<le> 100" by (simp only: pos_divide_le_eq zero_less_power zero_less_numeral)
  then show ?thesis by (simp add: dbl_value_def)
qed

text \<open>Ties go to the even neighbour, also among the subnormal numbers.\<close>

lemma round_to_examples:
  "round_to 1 (2 ^ 53 + 1) = 2 ^ 53"
  "round_to 1 (2 ^ 53 + 3) = 2 ^ 53 + 4"
  "dbl_half 1 = 0"
  "dbl_half 3 = 2"
  "dbl_half 5 = 2"
  by (simp_all add: round_to_def dbl_half_def)

subsection \<open>Termination of \<^verbatim>\<open>vorobT\<close>\<close>

text \<open>
  The loop returns exactly when the iteration on its state stops after some number of
  passes.
\<close>

lemma vorobT_loop_unfold:
  "vorobT_loop f e data ref nobjs avg a b prev =
     (case vorobT_step f e data ref nobjs avg (a, b, prev) of
        Some (a', b', tmp) \<Rightarrow> vorobT_loop f e data ref nobjs avg a' b' tmp
      | None \<Rightarrow>
          (case vorobT_body f e data ref nobjs avg a b prev of
             Inl err \<Rightarrow> Some (Inl err)
           | Inr (c, eaf_res, a', b', diff, tmp) \<Rightarrow>
               Some (Inr \<lparr>threshold = dbl_value c, VE = eaf_res, avg_hyp = avg\<rparr>)))"
  by (subst vorobT_loop.simps) (simp add: vorobT_step_def split: sum.splits prod.splits)

lemma vorobT_loop_returns_if_left:
  "vorobT_iter f e data ref nobjs avg (a, b, prev) n = None \<Longrightarrow>
   \<exists>r. vorobT_loop f e data ref nobjs avg a b prev = Some r"
proof (induction n arbitrary: a b prev)
  case 0
  then show ?case by simp
next
  case (Suc n)
  show ?case
  proof (cases "vorobT_step f e data ref nobjs avg (a, b, prev)")
    case None
    then show ?thesis
      by (subst vorobT_loop_unfold) (simp split: sum.splits prod.splits)
  next
    case (Some s)
    obtain a' b' tmp where s: "s = (a', b', tmp)" by (cases s) auto
    have "vorobT_iter f e data ref nobjs avg (a', b', tmp) n = None"
      using Suc.prems Some s by simp
    then have "\<exists>r. vorobT_loop f e data ref nobjs avg a' b' tmp = Some r" by (rule Suc.IH)
    then show ?thesis using Some s by (subst vorobT_loop_unfold) simp
  qed
qed

lemma vorobT_loop_left_if_returns:
  assumes "vorobT_loop f e data ref nobjs avg a b prev = Some r"
  shows "\<exists>n. vorobT_iter f e data ref nobjs avg (a, b, prev) n = None"
  using assms
proof (induction rule: vorobT_loop.raw_induct [rotated, consumes 1])
  case (1 loop f e data ref nobjs avg a b prev r)
  show ?case
  proof (cases "vorobT_step f e data ref nobjs avg (a, b, prev)")
    case None
    then have "vorobT_iter f e data ref nobjs avg (a, b, prev) (Suc 0) = None" by simp
    then show ?thesis by blast
  next
    case (Some s)
    obtain a' b' tmp where s: "s = (a', b', tmp)" by (cases s) auto
    have "loop f e data ref nobjs avg a' b' tmp = Some r"
      using Some s 1(2) by (auto simp: vorobT_step_def split: sum.splits prod.splits if_splits)
    then obtain n where "vorobT_iter f e data ref nobjs avg (a', b', tmp) n = None"
      using 1(1) by blast
    then have "vorobT_iter f e data ref nobjs avg (a, b, prev) (Suc n) = None"
      using Some s by simp
    then show ?thesis by blast
  qed
qed

lemma vorobT_iter_Suc:
  "vorobT_step f e data ref nobjs avg s = Some s' \<Longrightarrow>
   vorobT_iter f e data ref nobjs avg s (Suc n) = vorobT_iter f e data ref nobjs avg s' n"
  by simp

lemma vorobT_iter_None_mono:
  "vorobT_iter f e data ref nobjs avg s n = None \<Longrightarrow>
   vorobT_iter f e data ref nobjs avg s (n + m) = None"
  by (induction n arbitrary: s) (auto split: option.splits)

text \<open>
  A pass that goes on moves one bound to the midpoint, and its hypervolume is the one of
  the EAF boundary at the midpoint.
\<close>

lemma vorobT_step_SomeD:
  assumes "vorobT_step f e data ref nobjs avg (a, b, prev) = Some (a', b', tmp)"
  shows "((a' = dbl_mid a b \<and> b' = b) \<or> (a' = a \<and> b' = dbl_mid a b)) \<and>
         (\<exists>res. eaf e data [dbl_value (dbl_mid a b)] = Inr res \<and>
                hypervolume f (take_cols nobjs res) ref = Inr tmp)"
  using assms
  by (auto simp: vorobT_step_def vorobT_body_def Let_def split: sum.splits if_splits)

text \<open>
  When the midpoint is the one of the previous pass, so is the hypervolume, and \<open>diff\<close> is
  zero if this hypervolume is finite.
\<close>

lemma vorobT_step_same_midpoint:
  assumes "eaf e data [dbl_value (dbl_mid a b)] = Inr res"
    and "hypervolume f (take_cols nobjs res) ref = Inr tmp"
    and "dfinite tmp"
  shows "vorobT_step f e data ref nobjs avg (a, b, tmp) = None"
proof -
  obtain x where "tmp = Fin x" using assms(3) by (cases tmp) auto
  then show ?thesis
    using assms(1,2) by (simp add: vorobT_step_def vorobT_body_def Let_def dsub_def)
qed

text \<open>
  While the hypervolumes are finite, a pass either cuts the interval of the bounds to at
  most five sixths of its width, or its midpoint is one of the bounds; then the next pass
  has the same midpoint, hence the same hypervolume, and leaves the loop. An interval of
  width \<open>w\<close> units with \<open>5\<^sup>k w < 2 * 6\<^sup>k\<close> is therefore left within \<open>k + 2\<close> passes.
\<close>

lemma vorobT_bounded_passes:
  assumes "is_dbl a" and "is_dbl b" and "a \<le> b"
    and "\<forall>n a' b' p. 0 < n \<longrightarrow>
           vorobT_iter f e data ref nobjs avg (a, b, prev) n = Some (a', b', p) \<longrightarrow> dfinite p"
    and "5 ^ k * (b - a) < 2 * 6 ^ k"
  shows "\<exists>n \<le> k + 2. vorobT_iter f e data ref nobjs avg (a, b, prev) n = None"
  using assms
proof (induction k arbitrary: a b prev)
  case 0
  let ?c = "dbl_mid a b"
  have c: "a \<le> ?c" "?c \<le> b" using dbl_mid_between [OF "0.prems"(1,2,3)] by simp_all
  have "b - a < 2" using "0.prems"(5) by simp
  then have edge: "?c = a \<or> ?c = b" using c by linarith
  show ?case
  proof (cases "vorobT_step f e data ref nobjs avg (a, b, prev)")
    case None
    then have "vorobT_iter f e data ref nobjs avg (a, b, prev) (Suc 0) = None" by simp
    then show ?thesis by (intro exI [of _ "Suc 0"]) simp
  next
    case (Some s)
    obtain a' b' tmp where s: "s = (a', b', tmp)" by (cases s) auto
    note step = Some [unfolded s]
    have move: "(a' = ?c \<and> b' = b) \<or> (a' = a \<and> b' = ?c)"
      and obs: "\<exists>res. eaf e data [dbl_value ?c] = Inr res \<and>
                     hypervolume f (take_cols nobjs res) ref = Inr tmp"
      using vorobT_step_SomeD [OF step] by simp_all
    have "vorobT_iter f e data ref nobjs avg (a, b, prev) (Suc 0) = Some (a', b', tmp)"
      using step by simp
    then have fin: "dfinite tmp" using "0.prems"(4) by blast
    have "dbl_mid a' b' = ?c"
      using edge move "0.prems"(1,2) by (auto simp: dbl_mid_same)
    then have "vorobT_step f e data ref nobjs avg (a', b', tmp) = None"
      using obs fin by (auto intro: vorobT_step_same_midpoint)
    then have "vorobT_iter f e data ref nobjs avg (a, b, prev) (Suc (Suc 0)) = None"
      using step by simp
    then show ?thesis by (intro exI [of _ "Suc (Suc 0)"]) simp
  qed
next
  case (Suc k)
  let ?c = "dbl_mid a b"
  have c: "a \<le> ?c" "?c \<le> b" "is_dbl ?c"
    using dbl_mid_between [OF Suc.prems(1,2,3)] by simp_all
  show ?case
  proof (cases "vorobT_step f e data ref nobjs avg (a, b, prev)")
    case None
    then have "vorobT_iter f e data ref nobjs avg (a, b, prev) (Suc 0) = None" by simp
    then show ?thesis by (intro exI [of _ "Suc 0"]) simp
  next
    case (Some s)
    obtain a' b' tmp where s: "s = (a', b', tmp)" by (cases s) auto
    note step = Some [unfolded s]
    have move: "(a' = ?c \<and> b' = b) \<or> (a' = a \<and> b' = ?c)"
      and obs: "\<exists>res. eaf e data [dbl_value ?c] = Inr res \<and>
                     hypervolume f (take_cols nobjs res) ref = Inr tmp"
      using vorobT_step_SomeD [OF step] by simp_all
    have "vorobT_iter f e data ref nobjs avg (a, b, prev) (Suc 0) = Some (a', b', tmp)"
      using step by simp
    then have fin: "dfinite tmp" using Suc.prems(4) by blast
    have inv: "is_dbl a'" "is_dbl b'" "a' \<le> b'"
      using move c Suc.prems(1,2) by auto
    have fin': "\<forall>n a'' b'' p. 0 < n \<longrightarrow>
           vorobT_iter f e data ref nobjs avg (a', b', tmp) n = Some (a'', b'', p) \<longrightarrow> dfinite p"
    proof (intro allI impI)
      fix n a'' b'' p
      assume "0 < n" and "vorobT_iter f e data ref nobjs avg (a', b', tmp) n = Some (a'', b'', p)"
      then have "vorobT_iter f e data ref nobjs avg (a, b, prev) (Suc n) = Some (a'', b'', p)"
        using step by simp
      then show "dfinite p" using Suc.prems(4) by blast
    qed
    show ?thesis
    proof (cases "a < ?c \<and> ?c < b")
      case True
      then have "6 * (b' - a') \<le> 5 * (b - a)"
        using dbl_mid_contracts [OF Suc.prems(1,2)] move by auto
      then have "5 ^ k * (6 * (b' - a')) \<le> 5 ^ k * (5 * (b - a))" by (rule mult_le_mono2)
      also have "\<dots> < 2 * 6 ^ Suc k" using Suc.prems(5) by (simp add: mult.assoc)
      finally have "6 * (5 ^ k * (b' - a')) < 6 * (2 * 6 ^ k)" by (simp add: mult.left_commute)
      then have "5 ^ k * (b' - a') < 2 * 6 ^ k" by (simp add: mult.commute)
      then obtain n where n: "n \<le> k + 2"
        "vorobT_iter f e data ref nobjs avg (a', b', tmp) n = None"
        using Suc.IH [OF inv fin'] by blast
      have "vorobT_iter f e data ref nobjs avg (a, b, prev) (Suc n) = None"
        using step n(2) by simp
      moreover have "Suc n \<le> Suc k + 2" using n(1) by simp
      ultimately show ?thesis by blast
    next
      case False
      then have "?c = a \<or> ?c = b" using c by auto
      then have "dbl_mid a' b' = ?c"
        using move Suc.prems(1,2) by (auto simp: dbl_mid_same)
      then have "vorobT_step f e data ref nobjs avg (a', b', tmp) = None"
        using obs fin by (auto intro: vorobT_step_same_midpoint)
      then have "vorobT_iter f e data ref nobjs avg (a, b, prev) (Suc (Suc 0)) = None"
        using step by simp
      then show ?thesis by (intro exI [of _ "Suc (Suc 0)"]) simp
    qed
  qed
qed

lemma width_bound:
  fixes w :: nat
  assumes "w < 2 * 2 ^ (6 * m)" and "0 < m"
  shows "5 ^ (23 * m) * w < 2 * 6 ^ (23 * m)"
proof -
  have "((5::nat) ^ 23 * 2 ^ 6) ^ m < (6 ^ 23) ^ m"
    using assms(2) by (intro power_strict_mono) simp_all
  then have g: "(5::nat) ^ (23 * m) * 2 ^ (6 * m) < 6 ^ (23 * m)"
    by (simp only: power_mult power_mult_distrib)
  have "5 ^ (23 * m) * w < 5 ^ (23 * m) * (2 * 2 ^ (6 * m))"
    using assms(1) by (intro mult_strict_left_mono) simp_all
  also have "\<dots> = 2 * (5 ^ (23 * m) * 2 ^ (6 * m))" by (simp only: mult.left_commute)
  also have "\<dots> < 2 * 6 ^ (23 * m)" using g by simp
  finally show ?thesis .
qed

lemma start_width: "dbl_100 - 0 < 2 * 2 ^ (6 * 180)"
  by (simp add: dbl_100_def)

text \<open>A dataset of two runs on which the loop makes three passes.\<close>

lemma eaf_spec_example_passes:
  "eaf_compute_matrix_spec [[5, 5], [1, 1], [2, 2]] 2 [Suc 0, Suc (Suc (Suc 0))] [50] = [[1, 1, 50]]"
  "eaf_compute_matrix_spec [[5, 5], [1, 1], [2, 2]] 2 [Suc 0, Suc (Suc (Suc 0))] [75] = [[5, 5, 75]]"
  "eaf_compute_matrix_spec [[5, 5], [1, 1], [2, 2]] 2 [Suc 0, Suc (Suc (Suc 0))] [125 / 2]
     = [[5, 5, 125 / 2]]"
  by code_simp+

lemma eaf_example_passes:
  "eaf eaf_compute_matrix_spec \<lparr>ncols = 3, rows = [[5, 5, 1], [1, 1, 2], [2, 2, 2]]\<rparr> [50]
     = Inr \<lparr>ncols = 3, rows = [[1, 1, 50]]\<rparr>"
  "eaf eaf_compute_matrix_spec \<lparr>ncols = 3, rows = [[5, 5, 1], [1, 1, 2], [2, 2, 2]]\<rparr> [75]
     = Inr \<lparr>ncols = 3, rows = [[5, 5, 75]]\<rparr>"
  "eaf eaf_compute_matrix_spec \<lparr>ncols = 3, rows = [[5, 5, 1], [1, 1, 2], [2, 2, 2]]\<rparr> [125 / 2]
     = Inr \<lparr>ncols = 3, rows = [[5, 5, 125 / 2]]\<rparr>"
  by (simp_all add: eaf_def last_col_def np_unique_counts_def np_unique_122 np_cumsum_def
        eaf_percentiles_def drop_last_col_def Let_def np_unique_def eaf_spec_example_passes)

lemma vorobT_example_steps:
  "vorobT_step fpli_hv_spec eaf_compute_matrix_spec
     \<lparr>ncols = 3, rows = [[5, 5, 1], [1, 1, 2], [2, 2, 2]]\<rparr> [10, 10] 2 (Fin (187 / 3))
     (0, dbl_of_halves 200, PInf) = Some (dbl_of_halves 100, dbl_of_halves 200, Fin 81)"
  "vorobT_step fpli_hv_spec eaf_compute_matrix_spec
     \<lparr>ncols = 3, rows = [[5, 5, 1], [1, 1, 2], [2, 2, 2]]\<rparr> [10, 10] 2 (Fin (187 / 3))
     (dbl_of_halves 100, dbl_of_halves 200, Fin 81)
     = Some (dbl_of_halves 100, dbl_of_halves 150, Fin 25)"
  "vorobT_step fpli_hv_spec eaf_compute_matrix_spec
     \<lparr>ncols = 3, rows = [[5, 5, 1], [1, 1, 2], [2, 2, 2]]\<rparr> [10, 10] 2 (Fin (187 / 3))
     (dbl_of_halves 100, dbl_of_halves 150, Fin 25) = None"
  by (simp_all add: vorobT_step_def vorobT_body_def Let_def dbl_mid_examples dbl_value_halves
        eaf_example_passes take_cols_def hypervolume_def atleast_1d_of_length_n_def
        hv_examples hv_examples_dev dsub_def)

lemma vorobT_avg_hyp_example:
  "vorobT_avg_hyp fpli_hv_spec \<lparr>ncols = 3, rows = [[5, 5, 1], [1, 1, 2], [2, 2, 2]]\<rparr> [10, 10]
     = Inr (Fin (187 / 3))"
  by (simp add: vorobT_avg_hyp_def last_col_def rows_of_set_def
        drop_last_col_def hypervolume_def atleast_1d_of_length_n_def
        hv_examples np_mean_def Let_def)

lemma vorobT_example:
  "vorobT fpli_hv_spec eaf_compute_matrix_spec
     \<lparr>ncols = 3, rows = [[5, 5, 1], [1, 1, 2], [2, 2, 2]]\<rparr> [10, 10]
   = Some (Inr \<lparr>threshold = 125 / 2, VE = \<lparr>ncols = 2, rows = [[5, 5]]\<rparr>,
                 avg_hyp = Fin (187 / 3)\<rparr>)"
  apply (simp add: vorobT_def vorobT_avg_hyp_example dbl_100_halves)
  apply (subst vorobT_loop_unfold, simp add: vorobT_example_steps)
  apply (subst vorobT_loop_unfold, simp add: vorobT_example_steps)
  apply (subst vorobT_loop_unfold, simp add: vorobT_example_steps)
  apply (simp add: vorobT_body_def Let_def dbl_mid_examples dbl_value_halves eaf_example_passes
        take_cols_def hypervolume_def atleast_1d_of_length_n_def hv_examples)
  done

lemma vorobT_example_trace:
  "vorobT_iter fpli_hv_spec eaf_compute_matrix_spec
     \<lparr>ncols = 3, rows = [[5, 5, 1], [1, 1, 2], [2, 2, 2]]\<rparr> [10, 10] 2 (Fin (187 / 3))
     (0, dbl_100, PInf) (Suc 0) = Some (dbl_of_halves 100, dbl_of_halves 200, Fin 81)"
  "vorobT_iter fpli_hv_spec eaf_compute_matrix_spec
     \<lparr>ncols = 3, rows = [[5, 5, 1], [1, 1, 2], [2, 2, 2]]\<rparr> [10, 10] 2 (Fin (187 / 3))
     (0, dbl_100, PInf) (Suc (Suc 0)) = Some (dbl_of_halves 100, dbl_of_halves 150, Fin 25)"
  "vorobT_iter fpli_hv_spec eaf_compute_matrix_spec
     \<lparr>ncols = 3, rows = [[5, 5, 1], [1, 1, 2], [2, 2, 2]]\<rparr> [10, 10] 2 (Fin (187 / 3))
     (0, dbl_100, PInf) (Suc (Suc (Suc 0)) + m) = None"
proof -
  show "vorobT_iter fpli_hv_spec eaf_compute_matrix_spec
     \<lparr>ncols = 3, rows = [[5, 5, 1], [1, 1, 2], [2, 2, 2]]\<rparr> [10, 10] 2 (Fin (187 / 3))
     (0, dbl_100, PInf) (Suc 0) = Some (dbl_of_halves 100, dbl_of_halves 200, Fin 81)"
    by (simp add: dbl_100_halves vorobT_example_steps)
  show "vorobT_iter fpli_hv_spec eaf_compute_matrix_spec
     \<lparr>ncols = 3, rows = [[5, 5, 1], [1, 1, 2], [2, 2, 2]]\<rparr> [10, 10] 2 (Fin (187 / 3))
     (0, dbl_100, PInf) (Suc (Suc 0)) = Some (dbl_of_halves 100, dbl_of_halves 150, Fin 25)"
    by (simp add: dbl_100_halves vorobT_example_steps)
  have "vorobT_iter fpli_hv_spec eaf_compute_matrix_spec
     \<lparr>ncols = 3, rows = [[5, 5, 1], [1, 1, 2], [2, 2, 2]]\<rparr> [10, 10] 2 (Fin (187 / 3))
     (0, dbl_100, PInf) (Suc (Suc (Suc 0))) = None"
    by (simp add: dbl_100_halves vorobT_example_steps)
  then show "vorobT_iter fpli_hv_spec eaf_compute_matrix_spec
     \<lparr>ncols = 3, rows = [[5, 5, 1], [1, 1, 2], [2, 2, 2]]\<rparr> [10, 10] 2 (Fin (187 / 3))
     (0, dbl_100, PInf) (Suc (Suc (Suc 0)) + m) = None"
    by (rule vorobT_iter_None_mono)
qed

lemma vorobT_example_finite:
  "\<forall>avg n a b p.
     vorobT_avg_hyp fpli_hv_spec \<lparr>ncols = 3, rows = [[5, 5, 1], [1, 1, 2], [2, 2, 2]]\<rparr> [10, 10]
       = Inr avg \<longrightarrow> 0 < n \<longrightarrow>
     vorobT_iter fpli_hv_spec eaf_compute_matrix_spec
       \<lparr>ncols = 3, rows = [[5, 5, 1], [1, 1, 2], [2, 2, 2]]\<rparr> [10, 10]
       (ncols \<lparr>ncols = 3, rows = [[5, 5, 1], [1, 1, 2], [2, 2, 2]]\<rparr> - 1) avg
       (0, dbl_100, PInf) n = Some (a, b, p) \<longrightarrow> dfinite p"
proof (intro allI impI)
  fix avg n a b p
  assume avg: "vorobT_avg_hyp fpli_hv_spec
      \<lparr>ncols = 3, rows = [[5, 5, 1], [1, 1, 2], [2, 2, 2]]\<rparr> [10, 10] = Inr avg"
    and n: "0 < n"
    and it: "vorobT_iter fpli_hv_spec eaf_compute_matrix_spec
       \<lparr>ncols = 3, rows = [[5, 5, 1], [1, 1, 2], [2, 2, 2]]\<rparr> [10, 10]
       (ncols \<lparr>ncols = 3, rows = [[5, 5, 1], [1, 1, 2], [2, 2, 2]]\<rparr> - 1) avg
       (0, dbl_100, PInf) n = Some (a, b, p)"
  have a: "avg = Fin (187 / 3)" using avg by (simp add: vorobT_avg_hyp_example)
  have two: "ncols \<lparr>ncols = 3, rows = [[5, 5, 1], [1, 1, 2], [2, 2, 2 :: real]]\<rparr> - 1 = 2" by simp
  consider "n = Suc 0" | "n = Suc (Suc 0)" | m where "n = Suc (Suc (Suc 0)) + m"
    using n by (metis One_nat_def Suc_eq_plus1 add.commute add_Suc_right less_natE plus_1_eq_Suc
        not0_implies_Suc add_0)
  then show "dfinite p"
  proof cases
    case 1
    then show ?thesis using it unfolding a two by (simp only: vorobT_example_trace) auto
  next
    case 2
    then show ?thesis using it unfolding a two by (simp only: vorobT_example_trace) auto
  next
    case 3
    then show ?thesis using it unfolding a two by (simp only: vorobT_example_trace) auto
  qed
qed

text \<open>
  C2 (as amended). \<^verbatim>\<open>vorobT\<close> counts no iterations, and its loop ends only when \<open>diff\<close> is
  zero or a call raises. Its bounds are doubles, though: for every dataset and reference
  point, and whatever the native routines compute, if every hypervolume of an EAF boundary
  computed in the loop is finite then the call terminates, and the loop is left within 4142
  passes of the bisection (midpoint \<open>c = (a + b) / 2\<close>, \<open>a = c\<close> when the hypervolume exceeds
  \<open>avg_hyp\<close>, else \<open>b = c\<close>).
\<close>

theorem vorobT_terminates_when_finite:
  assumes "\<forall>avg n a b p. vorobT_avg_hyp f data ref = Inr avg \<longrightarrow> 0 < n \<longrightarrow>
             vorobT_iter f e data ref (ncols data - 1) avg (0, dbl_100, PInf) n = Some (a, b, p) \<longrightarrow>
             dfinite p"
  shows "vorobT f e data ref \<noteq> None \<and>
         (\<forall>avg. 3 \<le> ncols data \<longrightarrow> vorobT_avg_hyp f data ref = Inr avg \<longrightarrow>
            (\<exists>n \<le> 4142.
               vorobT_iter f e data ref (ncols data - 1) avg (0, dbl_100, PInf) n = None))"
proof -
  have bounded: "\<exists>n \<le> 4142.
      vorobT_iter f e data ref (ncols data - 1) avg (0, dbl_100, PInf) n = None"
    if avg: "vorobT_avg_hyp f data ref = Inr avg" for avg
  proof -
    have fin: "\<forall>n a b p. 0 < n \<longrightarrow>
        vorobT_iter f e data ref (ncols data - 1) avg (0, dbl_100, PInf) n = Some (a, b, p) \<longrightarrow>
        dfinite p"
      using assms avg by blast
    have w: "5 ^ (23 * 180) * (dbl_100 - 0) < 2 * 6 ^ (23 * 180)"
      by (rule width_bound [OF start_width]) simp
    have "\<exists>n \<le> 23 * 180 + 2.
        vorobT_iter f e data ref (ncols data - 1) avg (0, dbl_100, PInf) n = None"
      by (rule vorobT_bounded_passes [OF is_dbl_zero is_dbl_100 _ fin w]) simp
    then show ?thesis by simp
  qed
  have "vorobT f e data ref \<noteq> None"
  proof (cases "ncols data < 3")
    case True
    then show ?thesis by (simp add: vorobT_def)
  next
    case False
    show ?thesis
    proof (cases "vorobT_avg_hyp f data ref")
      case (Inl err)
      then show ?thesis using False by (simp add: vorobT_def)
    next
      case (Inr avg)
      then obtain n where
        "vorobT_iter f e data ref (ncols data - 1) avg (0, dbl_100, PInf) n = None"
        using bounded by blast
      then have "\<exists>r. vorobT_loop f e data ref (ncols data - 1) avg 0 dbl_100 PInf = Some r"
        by (rule vorobT_loop_returns_if_left)
      then show ?thesis using False Inr by (auto simp: vorobT_def)
    qed
  qed
  then show ?thesis using bounded by blast
qed

theorem vorobT_terminates_when_finite_witness:
  "vorobT fpli_hv_spec eaf_compute_matrix_spec
     \<lparr>ncols = 3, rows = [[5, 5, 1], [1, 1, 2], [2, 2, 2]]\<rparr> [10, 10] \<noteq> None \<and>
   (\<exists>n \<le> 4142. vorobT_iter fpli_hv_spec eaf_compute_matrix_spec
     \<lparr>ncols = 3, rows = [[5, 5, 1], [1, 1, 2], [2, 2, 2]]\<rparr> [10, 10] 2 (Fin (187 / 3))
     (0, dbl_100, PInf) n = None)"
  using vorobT_terminates_when_finite [OF vorobT_example_finite] vorobT_avg_hyp_example
  by simp

text \<open>
  A reference point so far away that the hypervolume of the only point overflows: the
  hypervolume is \<open>+\<infinity>\<close> at every pass, \<open>diff\<close> is \<open>\<infinity> - \<infinity>\<close>, which is NaN and differs from 0,
  and the upper bound is halved for ever (it stays 0 once it has reached 0).
\<close>

lemma hv_overflow:
  "DBL_MAX < r * r \<Longrightarrow> 0 < r \<Longrightarrow> fpli_hv_spec [[0, 0]] 2 n [r, r] = PInf"
  by (simp add: fpli_hv_spec_def to_double_def box_volume_def max_def)

lemma level_at_most_one:
  assumes "0 \<le> c" and "c \<le> 100"
  shows "nat \<lceil>c * real (Suc 0) / 100\<rceil> \<le> Suc 0"
proof -
  have "\<lceil>c / 100\<rceil> \<le> 1" using assms by (intro ceiling_le) simp
  then show ?thesis by simp
qed

lemma eaf_single_point:
  assumes "0 \<le> c" and "c \<le> 100"
  shows "eaf eaf_compute_matrix_spec \<lparr>ncols = 3, rows = [[0, 0, 1]]\<rparr> [c]
         = Inr \<lparr>ncols = 3, rows = [[0, 0, c]]\<rparr>"
proof -
  have "eaf_level_front [[0, 0]] 2 [Suc 0] c = [[0, 0]]"
    using level_at_most_one [OF assms] assms
    by (simp add: eaf_level_front_def eaf_runs_def attains_def Let_def upt_rec numeral_2_eq_2)
  then show ?thesis
    by (simp add: eaf_def last_col_def np_unique_counts_def np_unique_def np_cumsum_def
          eaf_percentiles_def drop_last_col_def eaf_compute_matrix_spec_def Let_def)
qed

lemma vorobT_step_overflow:
  assumes "DBL_MAX < r * r" and "0 < r" and "is_dbl b" and "b \<le> dbl_100"
  shows "vorobT_step fpli_hv_spec eaf_compute_matrix_spec \<lparr>ncols = 3, rows = [[0, 0, 1]]\<rparr>
           [r, r] 2 PInf (0, b, PInf) = Some (0, dbl_mid 0 b, PInf)"
proof -
  have "dbl_mid 0 b \<le> dbl_100"
    using dbl_mid_between [OF is_dbl_zero assms(3)] assms(4) by simp
  then have "0 \<le> dbl_value (dbl_mid 0 b)" "dbl_value (dbl_mid 0 b) \<le> 100"
    using dbl_value_range by simp_all
  then have "eaf eaf_compute_matrix_spec \<lparr>ncols = 3, rows = [[0, 0, 1]]\<rparr> [dbl_value (dbl_mid 0 b)]
         = Inr \<lparr>ncols = 3, rows = [[0, 0, dbl_value (dbl_mid 0 b)]]\<rparr>"
    by (rule eaf_single_point)
  then show ?thesis
    by (simp add: vorobT_step_def vorobT_body_def Let_def take_cols_def hypervolume_def
          atleast_1d_of_length_n_def hv_overflow [OF assms(1,2)] dsub_def)
qed

lemma vorobT_iter_overflow:
  "DBL_MAX < r * r \<Longrightarrow> 0 < r \<Longrightarrow> is_dbl b \<Longrightarrow> b \<le> dbl_100 \<Longrightarrow>
   vorobT_iter fpli_hv_spec eaf_compute_matrix_spec \<lparr>ncols = 3, rows = [[0, 0, 1]]\<rparr>
     [r, r] 2 PInf (0, b, PInf) n \<noteq> None"
proof (induction n arbitrary: b)
  case 0
  then show ?case by simp
next
  case (Suc n)
  have "is_dbl (dbl_mid 0 b)" "dbl_mid 0 b \<le> dbl_100"
    using dbl_mid_between [OF is_dbl_zero Suc.prems(3)] Suc.prems(4) by simp_all
  then show ?case
    using Suc.IH [of "dbl_mid 0 b"] Suc.prems vorobT_step_overflow [of r b] by simp
qed

lemma vorobT_avg_hyp_overflow:
  "DBL_MAX < r * r \<Longrightarrow> 0 < r \<Longrightarrow>
   vorobT_avg_hyp fpli_hv_spec \<lparr>ncols = 3, rows = [[0, 0, 1]]\<rparr> [r, r] = Inr PInf"
  by (simp add: vorobT_avg_hyp_def last_col_def rows_of_set_def drop_last_col_def hypervolume_def
        atleast_1d_of_length_n_def hv_overflow np_mean_def Let_def)

lemma vorobT_overflow_never_returns:
  assumes "DBL_MAX < r * r" and "0 < r"
  shows "vorobT fpli_hv_spec eaf_compute_matrix_spec \<lparr>ncols = 3, rows = [[0, 0, 1]]\<rparr> [r, r]
         = None"
proof (rule ccontr)
  assume "vorobT fpli_hv_spec eaf_compute_matrix_spec \<lparr>ncols = 3, rows = [[0, 0, 1]]\<rparr> [r, r]
          \<noteq> None"
  then obtain res where "vorobT_loop fpli_hv_spec eaf_compute_matrix_spec
      \<lparr>ncols = 3, rows = [[0, 0, 1]]\<rparr> [r, r] 2 PInf 0 dbl_100 PInf = Some res"
    using assms by (auto simp: vorobT_def vorobT_avg_hyp_overflow)
  then obtain n where "vorobT_iter fpli_hv_spec eaf_compute_matrix_spec
      \<lparr>ncols = 3, rows = [[0, 0, 1]]\<rparr> [r, r] 2 PInf (0, dbl_100, PInf) n = None"
    using vorobT_loop_left_if_returns by blast
  then show False using vorobT_iter_overflow [OF assms is_dbl_100, of n] by simp
qed

lemma overflow_1e200: "DBL_MAX < 10 ^ 200 * 10 ^ 200"
  by (simp add: DBL_MAX_def)

text \<open>
  The claim as it stands, for every dataset and reference point, fails: with the reference
  point \<open>(1e200, 1e200)\<close> the call does not return.
\<close>

theorem vorobT_never_returns_counterexample:
  "vorobT fpli_hv_spec eaf_compute_matrix_spec \<lparr>ncols = 3, rows = [[0, 0, 1]]\<rparr>
     [10 ^ 200, 10 ^ 200] = None"
  by (rule vorobT_overflow_never_returns [OF overflow_1e200]) simp

end
